theory Spec2Isabelle
  imports Complex_Main
begin

section \<open>Data model\<close>

text \<open>
  The back end is a set of Express handlers over a Prisma store. Each handler is embedded
  as a function from the store (and the request) to the HTTP response and the store it
  leaves behind; every early \<^verbatim>\<open>return res.status(...)\<close> is a \<open>Fail\<close> branch.
  Row identifiers (UUID strings in the source) are natural numbers drawn from a counter
  of the store. Amounts (\<^verbatim>\<open>Float\<close> columns, JavaScript numbers) are exact reals: the
  model idealises IEEE doubles. Dates are milliseconds since the epoch. Columns that no
  handler branches on (names, notes, order numbers) are left out, and so are the format
  checks of the route validators on identifiers and dates, which the abstract types make
  true.
\<close>

type_synonym ident = nat

datatype role = ADMIN | MANAGER | SERVER | KITCHEN

datatype order_status = PENDING | PREPARING | READY | SERVED | COMPLETED | CANCELLED

datatype item_status =
  ITEM_PENDING | ITEM_PREPARING | ITEM_READY | ITEM_SERVED | ITEM_CANCELLED

datatype order_type = DINE_IN | TAKEOUT | DELIVERY | ONLINE

datatype table_status = AVAILABLE | OCCUPIED | RESERVED | MAINTENANCE

datatype voucher_type = PERCENTAGE | FIXED_AMOUNT | FREE_ITEM

datatype transaction_type = ISSUE | REDEEM | REFUND | LOAD

datatype payment_status = PAY_PENDING | PAY_COMPLETED | PAY_FAILED | PAY_REFUNDED

record user =
  u_id :: ident
  u_role :: role
  u_restaurantId :: "ident option"

record restaurant =
  rs_id :: ident
  rs_taxRate :: real

record table_row =
  t_id :: ident
  t_restaurantId :: ident
  t_status :: table_status

record modifier =
  m_id :: ident
  m_price :: real
  m_available :: bool

record menuItem =
  mi_id :: ident
  mi_restaurantId :: ident
  mi_price :: real
  mi_available :: bool
  mi_modifierGroups :: "modifier list list"

record orderItemModifier =
  oim_modifierId :: ident
  oim_price :: real

record orderItem =
  oi_id :: ident
  oi_orderId :: ident
  oi_menuItemId :: ident
  oi_quantity :: int
  oi_price :: real
  oi_status :: item_status
  oi_modifiers :: "orderItemModifier list"

record order =
  o_id :: ident
  o_status :: order_status
  o_type :: order_type
  o_completedAt :: "int option"
  o_subtotal :: real
  o_tax :: real
  o_tip :: "real option"
  o_total :: real
  o_tableId :: "ident option"
  o_userId :: ident
  o_customerId :: "ident option"
  o_restaurantId :: ident

record voucher =
  v_id :: ident
  v_code :: string
  v_type :: voucher_type
  v_value :: real
  v_minPurchase :: real
  v_isActive :: bool
  v_startDate :: int
  v_expiryDate :: int
  v_usageLimit :: "int option"
  v_usageCount :: int
  v_restaurantId :: ident

record voucherRedemption =
  vr_id :: ident
  vr_createdAt :: int
  vr_voucherId :: ident
  vr_orderId :: ident
  vr_userId :: ident

record giftCard =
  gc_id :: ident
  gc_code :: string
  gc_initialBalance :: real
  gc_currentBalance :: real
  gc_isActive :: bool
  gc_expiryDate :: "int option"
  gc_customerId :: "ident option"
  gc_restaurantId :: ident

record giftCardTransaction =
  gt_id :: ident
  gt_amount :: real
  gt_type :: transaction_type
  gt_giftCardId :: ident
  gt_paymentId :: "ident option"
  gt_userId :: ident

record payment =
  p_id :: ident
  p_amount :: real
  p_status :: payment_status
  p_orderId :: ident
  p_userId :: ident

record db =
  nextId :: nat
  restaurants :: "restaurant list"
  tables :: "table_row list"
  customers :: "ident list"
  menuItems :: "menuItem list"
  orders :: "order list"
  orderItems :: "orderItem list"
  vouchers :: "voucher list"
  voucherRedemptions :: "voucherRedemption list"
  giftCards :: "giftCard list"
  giftCardTransactions :: "giftCardTransaction list"
  payments :: "payment list"

text \<open>
  The response of a handler: the HTTP status and, for a rejection, its message.
  A message that the source builds from a value of the request or of the store (a
  status, a name, an amount, a date) is given without that value.
  \<open>NonFinite\<close> marks a run whose arithmetic left the finite numbers (a division by zero
  gives \<^verbatim>\<open>Infinity\<close> or \<^verbatim>\<open>NaN\<close> in JavaScript and raises nothing); what the
  store does with such a value is outside the source, and the model stops there.
\<close>

datatype response = Success nat | Fail nat string | NonFinite

subsection \<open>Store access\<close>

definition findOrder :: "db \<Rightarrow> ident \<Rightarrow> order option" where
  "findOrder d i = find (\<lambda>x. o_id x = i) (orders d)"

definition findRestaurant :: "db \<Rightarrow> ident \<Rightarrow> restaurant option" where
  "findRestaurant d i = find (\<lambda>r. rs_id r = i) (restaurants d)"

definition updateOrder :: "ident \<Rightarrow> (order \<Rightarrow> order) \<Rightarrow> db \<Rightarrow> db" where
  "updateOrder i f d =
     d\<lparr>orders := map (\<lambda>x. if o_id x = i then f x else x) (orders d)\<rparr>"

definition orderItemsOf :: "db \<Rightarrow> ident \<Rightarrow> orderItem list" where
  "orderItemsOf d i = filter (\<lambda>it. oi_orderId it = i) (orderItems d)"

definition redemptionsOf :: "db \<Rightarrow> ident \<Rightarrow> voucherRedemption list" where
  "redemptionsOf d i = filter (\<lambda>r. vr_orderId r = i) (voucherRedemptions d)"

text \<open>The tenant check every handler repeats.\<close>

definition notAuthorized :: "user \<Rightarrow> ident \<Rightarrow> bool" where
  "notAuthorized u rid \<longleftrightarrow> u_role u \<noteq> ADMIN \<and> u_restaurantId u \<noteq> Some rid"

text \<open>\<^verbatim>\<open>Math.round(x * 100) / 100\<close>: \<^verbatim>\<open>Math.round\<close> rounds half up.\<close>

definition round2 :: "real \<Rightarrow> real" where
  "round2 x = of_int \<lfloor>x * 100 + 1 / 2\<rfloor> / 100"

definition tipOr0 :: "order \<Rightarrow> real" where
  "tipOr0 x = (case o_tip x of None \<Rightarrow> 0 | Some t \<Rightarrow> t)"

section \<open>Vouchers\<close>

text \<open>The literal \<^verbatim>\<open>new Date("2025-05-09T05:49:52Z")\<close> of \<^verbatim>\<open>applyVoucher\<close>.\<close>

definition voucherNow :: int where
  "voucherNow = 1746769792000"

definition voucherDiscount :: "voucher \<Rightarrow> real \<Rightarrow> real" where
  "voucherDiscount v subtotal =
     round2 (case v_type v of
        PERCENTAGE \<Rightarrow> (subtotal * v_value v) / 100
      | FIXED_AMOUNT \<Rightarrow> min (v_value v) subtotal
      | FREE_ITEM \<Rightarrow> v_value v)"

text \<open>
  \<open>clock\<close> is the system time of the call. The handler never reads it for the date
  checks; the store uses it for the \<^verbatim>\<open>createdAt\<close> default of the redemption row.
\<close>

definition applyDiscount :: "int \<Rightarrow> user \<Rightarrow> ident \<Rightarrow> order \<Rightarrow> voucher \<Rightarrow> restaurant \<Rightarrow> db \<Rightarrow> db" where
  "applyDiscount clock u orderId ord v rest d =
    (let discountAmount = voucherDiscount v (o_subtotal ord);
         newSubtotal = max 0 (o_subtotal ord - discountAmount);
         taxRate = rs_taxRate rest;
         newTax = (newSubtotal * taxRate) / 100;
         newTotal = newSubtotal + newTax + tipOr0 ord;
         d1 = updateOrder orderId
                (\<lambda>x. x\<lparr>o_subtotal := newSubtotal, o_tax := newTax,
                        o_total := newTotal\<rparr>) d;
         d2 = d1\<lparr>nextId := Suc (nextId d1),
                 voucherRedemptions := voucherRedemptions d1 @
                   [\<lparr>vr_id = nextId d1, vr_createdAt = clock,
                     vr_voucherId = v_id v, vr_orderId = orderId,
                     vr_userId = u_id u\<rparr>]\<rparr>
     in d2\<lparr>vouchers := map (\<lambda>w. if v_id w = v_id v
                 then w\<lparr>v_usageCount := v_usageCount w + 1\<rparr> else w)
               (vouchers d2)\<rparr>)"

definition usageExhausted :: "voucher \<Rightarrow> bool" where
  "usageExhausted v =
     (case v_usageLimit v of None \<Rightarrow> False | Some l \<Rightarrow> v_usageCount v \<ge> l)"

definition checkVoucher :: "int \<Rightarrow> user \<Rightarrow> ident \<Rightarrow> order \<Rightarrow> voucher \<Rightarrow> db \<Rightarrow> response \<times> db" where
  "checkVoucher clock u orderId ord v d =
    (let now = voucherNow in
     if \<not> v_isActive v then (Fail 400 ''Voucher is inactive'', d)
     else if now < v_startDate v then (Fail 400 ''Voucher is not valid yet'', d)
     else if now > v_expiryDate v then (Fail 400 ''Voucher expired'', d)
     else if usageExhausted v then (Fail 400 ''Voucher has reached its usage limit'', d)
     else if v_minPurchase v > o_subtotal ord
     then (Fail 400 ''Voucher requires a minimum purchase'', d)
     else (case findRestaurant d (o_restaurantId ord) of
             None \<Rightarrow> (Fail 500 ''Server Error'', d)
           | Some rest \<Rightarrow> (Success 200, applyDiscount clock u orderId ord v rest d)))"

definition applyVoucher :: "int \<Rightarrow> user \<Rightarrow> string \<Rightarrow> ident \<Rightarrow> db \<Rightarrow> response \<times> db" where
  "applyVoucher clock u code orderId d =
    (if code = [] then (Fail 400 ''Voucher code is required'', d)
     else (case findOrder d orderId of
       None \<Rightarrow> (Fail 404 ''Order not found'', d)
     | Some ord \<Rightarrow>
        (if notAuthorized u (o_restaurantId ord)
         then (Fail 403 ''Not authorized to modify this order'', d)
         else if redemptionsOf d orderId \<noteq> []
         then (Fail 400 ''A voucher has already been applied to this order'', d)
         else (case find (\<lambda>v. v_code v = code \<and> v_restaurantId v = o_restaurantId ord)
                         (vouchers d) of
            None \<Rightarrow> (Fail 404 ''Voucher not found'', d)
          | Some v \<Rightarrow> checkVoucher clock u orderId ord v d))))"

text \<open>
  \<^verbatim>\<open>removeVoucher\<close> rebuilds the subtotal from the voucher of the order's first
  redemption. The source does not check the divisor \<open>1 - value / 100\<close>.
\<close>

definition discountFactor :: "voucher \<Rightarrow> real" where
  "discountFactor v = 1 - v_value v / 100"

definition originalSubtotal :: "voucher \<Rightarrow> real \<Rightarrow> real" where
  "originalSubtotal v subtotal =
     round2 (case v_type v of
        PERCENTAGE \<Rightarrow> subtotal / discountFactor v
      | FIXED_AMOUNT \<Rightarrow> subtotal + v_value v
      | FREE_ITEM \<Rightarrow> subtotal + v_value v)"

definition restoreTotals :: "ident \<Rightarrow> order \<Rightarrow> voucherRedemption \<Rightarrow> voucher \<Rightarrow> restaurant \<Rightarrow> db \<Rightarrow> db" where
  "restoreTotals orderId ord redemption v rest d =
    (let original = originalSubtotal v (o_subtotal ord);
         taxRate = rs_taxRate rest;
         newTax = (original * taxRate) / 100;
         newTotal = original + newTax + tipOr0 ord;
         d1 = updateOrder orderId
                (\<lambda>x. x\<lparr>o_subtotal := original, o_tax := newTax, o_total := newTotal\<rparr>) d;
         d2 = d1\<lparr>voucherRedemptions :=
                   filter (\<lambda>r. vr_id r \<noteq> vr_id redemption) (voucherRedemptions d1)\<rparr>
     in d2\<lparr>vouchers := map (\<lambda>w. if v_id w = v_id v
                 then w\<lparr>v_usageCount := v_usageCount w - 1\<rparr> else w)
               (vouchers d2)\<rparr>)"

definition removeVoucher :: "user \<Rightarrow> ident \<Rightarrow> db \<Rightarrow> response \<times> db" where
  "removeVoucher u orderId d =
    (case findOrder d orderId of
       None \<Rightarrow> (Fail 404 ''Order not found'', d)
     | Some ord \<Rightarrow>
        (if notAuthorized u (o_restaurantId ord)
         then (Fail 403 ''Not authorized to modify this order'', d)
         else (case redemptionsOf d orderId of
            [] \<Rightarrow> (Fail 400 ''No voucher applied to this order'', d)
          | redemption # _ \<Rightarrow>
             (case find (\<lambda>v. v_id v = vr_voucherId redemption) (vouchers d) of
                None \<Rightarrow> (Fail 500 ''Server Error'', d)
              | Some v \<Rightarrow>
                 (if v_type v = PERCENTAGE \<and> discountFactor v = 0 then (NonFinite, d)
                  else (case findRestaurant d (o_restaurantId ord) of
                     None \<Rightarrow> (Fail 500 ''Server Error'', d)
                   | Some rest \<Rightarrow>
                      (Success 200, restoreTotals orderId ord redemption v rest d)))))))"

section \<open>Orders\<close>

text \<open>
  The handlers of the order controller. Route middleware (authentication, the role guard
  of some routes) runs before them and is not part of these functions. The
  \<^verbatim>\<open>orderNumber\<close> column and the collision of its unique index are left out.
\<close>

record orderItemInput =
  in_menuItemId :: ident
  in_quantity :: int
  in_modifierIds :: "ident list"

record validatedItem =
  vi_menuItemId :: ident
  vi_quantity :: int
  vi_price :: real
  vi_modifiers :: "orderItemModifier list"

record createOrderBody =
  b_tableId :: "ident option"
  b_customerId :: "ident option"
  b_type :: "order_type option"
  b_orderItems :: "orderItemInput list"
  b_restaurantId :: "ident option"

text \<open>
  The validators of the routes \<^verbatim>\<open>POST /api/orders\<close> and
  \<^verbatim>\<open>POST /api/orders/:id/items\<close>, read by \<^verbatim>\<open>validationResult\<close>.
\<close>

definition orderItemsInvalid :: "orderItemInput list \<Rightarrow> string option" where
  "orderItemsInvalid items =
     (if items = [] then Some ''Order must have at least one item''
      else if list_ex (\<lambda>i. in_quantity i < 1) items
      then Some ''Quantity must be a positive integer''
      else None)"

text \<open>The search through the modifier groups of a menu item: the first hit wins.\<close>

fun findModifier :: "modifier list list \<Rightarrow> ident \<Rightarrow> modifier option" where
  "findModifier [] mid = None"
| "findModifier (g # gs) mid =
     (case find (\<lambda>m. m_id m = mid) g of
        Some m \<Rightarrow> Some m
      | None \<Rightarrow> findModifier gs mid)"

fun validateModifiers ::
  "modifier list list \<Rightarrow> ident list \<Rightarrow> real \<Rightarrow> orderItemModifier list
     \<Rightarrow> response + real \<times> orderItemModifier list" where
  "validateModifiers gs [] modifiersPrice validated = Inr (modifiersPrice, validated)"
| "validateModifiers gs (mid # mids) modifiersPrice validated =
     (case findModifier gs mid of
        None \<Rightarrow> Inl (Fail 400 ''Modifier is not valid for menu item'')
      | Some m \<Rightarrow>
         (if \<not> m_available m then Inl (Fail 400 ''Modifier is not available'')
          else validateModifiers gs mids (modifiersPrice + m_price m)
                 (validated @ [\<lparr>oim_modifierId = mid, oim_price = m_price m\<rparr>])))"

text \<open>
  The loop over the requested items, shared (as duplicated text) by \<^verbatim>\<open>createOrder\<close>
  and \<^verbatim>\<open>addOrderItems\<close>: it accumulates the subtotal and the validated items.
\<close>

fun validateItems ::
  "db \<Rightarrow> ident \<Rightarrow> orderItemInput list \<Rightarrow> real \<Rightarrow> validatedItem list
     \<Rightarrow> response + real \<times> validatedItem list" where
  "validateItems d rid [] subtotal validated = Inr (subtotal, validated)"
| "validateItems d rid (item # items) subtotal validated =
     (case find (\<lambda>m. mi_id m = in_menuItemId item) (menuItems d) of
        None \<Rightarrow> Inl (Fail 404 ''Menu item not found'')
      | Some menuItem \<Rightarrow>
         (if mi_restaurantId menuItem \<noteq> rid
          then Inl (Fail 400 ''Menu item does not belong to this restaurant'')
          else if \<not> mi_available menuItem
          then Inl (Fail 400 ''Menu item is not available'')
          else (case validateModifiers (mi_modifierGroups menuItem) (in_modifierIds item) 0 [] of
             Inl e \<Rightarrow> Inl e
           | Inr (modifiersPrice, validatedModifiers) \<Rightarrow>
              validateItems d rid items
                (subtotal + (mi_price menuItem + modifiersPrice) * of_int (in_quantity item))
                (validated @ [\<lparr>vi_menuItemId = in_menuItemId item,
                               vi_quantity = in_quantity item,
                               vi_price = mi_price menuItem,
                               vi_modifiers = validatedModifiers\<rparr>]))))"

text \<open>
  Writing the rows. The handlers open no transaction, so what was written before the
  store raises stays written. The store raises in two places. The \<^verbatim>\<open>quantity\<close>
  column is a 32-bit \<^verbatim>\<open>Int\<close>, while the validator \<^verbatim>\<open>isInt({ min: 1 })\<close> sets no
  upper bound: a quantity outside the column's range makes \<^verbatim>\<open>orderItem.create\<close> raise
  before the item row is written. \<^verbatim>\<open>OrderItemModifier\<close> is unique per
  (item, modifier): the second row for the same modifier raises after the item row and
  the earlier modifier rows were written.
\<close>

definition fitsInt :: "int \<Rightarrow> bool" where
  "fitsInt q \<longleftrightarrow> - 2147483648 \<le> q \<and> q \<le> 2147483647"

definition uniqueViolation :: response where
  "uniqueViolation = Fail 400 ''A record with this orderItemId, modifierId already exists''"

fun storeModifiers ::
  "orderItemModifier list \<Rightarrow> orderItemModifier list \<Rightarrow> bool \<times> orderItemModifier list" where
  "storeModifiers [] stored = (True, stored)"
| "storeModifiers (m # ms) stored =
     (if oim_modifierId m \<in> set (map oim_modifierId stored) then (False, stored)
      else storeModifiers ms (stored @ [m]))"

text \<open>The result is the response of the raise, if any, and the store left behind.\<close>

fun createOrderItems ::
  "ident \<Rightarrow> validatedItem list \<Rightarrow> db \<Rightarrow> response option \<times> db" where
  "createOrderItems oid [] d = (None, d)"
| "createOrderItems oid (item # items) d =
     (if \<not> fitsInt (vi_quantity item) then (Some (Fail 500 ''Server Error''), d)
      else (let (ok, mods) = storeModifiers (vi_modifiers item) [];
                d1 = d\<lparr>nextId := Suc (nextId d),
                        orderItems := orderItems d @
                          [\<lparr>oi_id = nextId d, oi_orderId = oid,
                            oi_menuItemId = vi_menuItemId item,
                            oi_quantity = vi_quantity item, oi_price = vi_price item,
                            oi_status = ITEM_PENDING, oi_modifiers = mods\<rparr>]\<rparr>
            in if ok then createOrderItems oid items d1 else (Some uniqueViolation, d1)))"

definition resolveRestaurantId :: "user \<Rightarrow> ident option \<Rightarrow> ident option" where
  "resolveRestaurantId u bodyId = (if u_role u \<noteq> ADMIN then u_restaurantId u else bodyId)"

definition occupyTable :: "ident \<Rightarrow> db \<Rightarrow> db" where
  "occupyTable tid d =
     d\<lparr>tables := map (\<lambda>t. if t_id t = tid then t\<lparr>t_status := OCCUPIED\<rparr> else t) (tables d)\<rparr>"

definition priceAndStore :: "user \<Rightarrow> createOrderBody \<Rightarrow> restaurant \<Rightarrow> db \<Rightarrow> response \<times> db" where
  "priceAndStore u body rest d =
    (if b_orderItems body = [] then (Fail 400 ''Order must have at least one item'', d)
     else (case validateItems d (rs_id rest) (b_orderItems body) 0 [] of
        Inl e \<Rightarrow> (e, d)
      | Inr (subtotal, validatedItems) \<Rightarrow>
         (let taxRate = rs_taxRate rest;
              tax = subtotal * (taxRate / 100);
              total = subtotal + tax;
              d1 = d\<lparr>nextId := Suc (nextId d),
                      orders := orders d @
                        [\<lparr>o_id = nextId d, o_status = PENDING,
                          o_type = (case b_type body of None \<Rightarrow> DINE_IN | Some t \<Rightarrow> t),
                          o_completedAt = None, o_subtotal = subtotal, o_tax = tax,
                          o_tip = None, o_total = total, o_tableId = b_tableId body,
                          o_userId = u_id u, o_customerId = b_customerId body,
                          o_restaurantId = rs_id rest\<rparr>]\<rparr>;
              (raised, d2) = createOrderItems (nextId d) validatedItems d1
          in (case raised of None \<Rightarrow> (Success 201, d2) | Some e \<Rightarrow> (e, d2)))))"

definition checkCustomer :: "user \<Rightarrow> createOrderBody \<Rightarrow> restaurant \<Rightarrow> db \<Rightarrow> response \<times> db" where
  "checkCustomer u body rest d =
    (case b_customerId body of
       None \<Rightarrow> priceAndStore u body rest d
     | Some cid \<Rightarrow>
        (if cid \<notin> set (customers d) then (Fail 404 ''Customer not found'', d)
         else priceAndStore u body rest d))"

definition createOrder :: "user \<Rightarrow> createOrderBody \<Rightarrow> db \<Rightarrow> response \<times> db" where
  "createOrder u body d =
    (case orderItemsInvalid (b_orderItems body) of
       Some msg \<Rightarrow> (Fail 400 msg, d)
     | None \<Rightarrow>
        (case resolveRestaurantId u (b_restaurantId body) of
           None \<Rightarrow> (Fail 500 ''Server Error'', d)
         | Some restaurantId \<Rightarrow>
            (case findRestaurant d restaurantId of
               None \<Rightarrow> (Fail 404 ''Restaurant not found'', d)
             | Some rest \<Rightarrow>
                (case b_tableId body of
                   None \<Rightarrow> checkCustomer u body rest d
                 | Some tid \<Rightarrow>
                    (case find (\<lambda>t. t_id t = tid) (tables d) of
                       None \<Rightarrow> (Fail 404 ''Table not found'', d)
                     | Some t \<Rightarrow>
                        (if t_restaurantId t \<noteq> restaurantId
                         then (Fail 400 ''Table must belong to the same restaurant'', d)
                         else checkCustomer u body rest
                                (if t_status t = AVAILABLE then occupyTable tid d else d)))))))"

subsection \<open>Status updates\<close>

text \<open>The request carries the status as a string; the handler checks it against a list.\<close>

definition orderStatusOf :: "string \<Rightarrow> order_status option" where
  "orderStatusOf s =
     (if s = ''PENDING'' then Some PENDING
      else if s = ''PREPARING'' then Some PREPARING
      else if s = ''READY'' then Some READY
      else if s = ''SERVED'' then Some SERVED
      else if s = ''COMPLETED'' then Some COMPLETED
      else if s = ''CANCELLED'' then Some CANCELLED
      else None)"

definition itemStatusOf :: "string \<Rightarrow> item_status option" where
  "itemStatusOf s =
     (if s = ''PENDING'' then Some ITEM_PENDING
      else if s = ''PREPARING'' then Some ITEM_PREPARING
      else if s = ''READY'' then Some ITEM_READY
      else if s = ''SERVED'' then Some ITEM_SERVED
      else if s = ''CANCELLED'' then Some ITEM_CANCELLED
      else None)"

definition isActive :: "order_status \<Rightarrow> bool" where
  "isActive st \<longleftrightarrow> st \<in> {PENDING, PREPARING, READY, SERVED}"

text \<open>
  The count of the other active orders of a table, and the release of the table when
  there is none.
\<close>

definition activeOrders :: "db \<Rightarrow> ident \<Rightarrow> ident \<Rightarrow> nat" where
  "activeOrders d tid i =
     length (filter (\<lambda>x. o_tableId x = Some tid \<and> isActive (o_status x) \<and> o_id x \<noteq> i)
               (orders d))"

definition releaseTable :: "ident \<Rightarrow> ident \<Rightarrow> db \<Rightarrow> db" where
  "releaseTable tid i d =
     (if activeOrders d tid i = 0
      then d\<lparr>tables := map (\<lambda>t. if t_id t = tid then t\<lparr>t_status := AVAILABLE\<rparr> else t)
                          (tables d)\<rparr>
      else d)"

definition updateOrderStatus :: "int \<Rightarrow> user \<Rightarrow> ident \<Rightarrow> string \<Rightarrow> db \<Rightarrow> response \<times> db" where
  "updateOrderStatus clock u i status d =
    (case orderStatusOf status of
       None \<Rightarrow> (Fail 400 ''Invalid status'', d)
     | Some st \<Rightarrow>
        (case findOrder d i of
           None \<Rightarrow> (Fail 404 ''Order not found'', d)
         | Some ord \<Rightarrow>
            (if notAuthorized u (o_restaurantId ord)
             then (Fail 403 ''Not authorized to update this order'', d)
             else if st = COMPLETED \<or> st = CANCELLED
             then (let d1 = (case o_tableId ord of
                               None \<Rightarrow> d
                             | Some tid \<Rightarrow> releaseTable tid i d)
                   in (Success 200,
                       updateOrder i (\<lambda>x. x\<lparr>o_status := st, o_completedAt := Some clock\<rparr>) d1))
             else (Success 200, updateOrder i (\<lambda>x. x\<lparr>o_status := st\<rparr>) d))))"

definition cancelOrder :: "int \<Rightarrow> user \<Rightarrow> ident \<Rightarrow> db \<Rightarrow> response \<times> db" where
  "cancelOrder clock u i d =
    (case findOrder d i of
       None \<Rightarrow> (Fail 404 ''Order not found'', d)
     | Some ord \<Rightarrow>
        (if notAuthorized u (o_restaurantId ord)
         then (Fail 403 ''Not authorized to cancel this order'', d)
         else if o_status ord \<notin> {PENDING, PREPARING, READY}
         then (Fail 400 ''Cannot cancel an order with this status'', d)
         else (let d1 = updateOrder i
                          (\<lambda>x. x\<lparr>o_status := CANCELLED, o_completedAt := Some clock\<rparr>) d
               in (Success 200,
                   (case o_tableId ord of
                      None \<Rightarrow> d1
                    | Some tid \<Rightarrow> releaseTable tid i d1)))))"

subsection \<open>Item mutation\<close>

definition itemTotal :: "orderItem \<Rightarrow> real" where
  "itemTotal it =
     foldl (\<lambda>itemPrice m. itemPrice + oim_price m) (oi_price it) (oi_modifiers it)
       * of_int (oi_quantity it)"

definition writeTotals :: "ident \<Rightarrow> real \<Rightarrow> real \<Rightarrow> db \<Rightarrow> db" where
  "writeTotals i newSubtotal taxRate d =
     (let newTax = newSubtotal * (taxRate / 100);
          newTotal = newSubtotal + newTax
      in updateOrder i
           (\<lambda>x. x\<lparr>o_subtotal := newSubtotal, o_tax := newTax, o_total := newTotal\<rparr>) d)"

definition storeAndTotal ::
  "ident \<Rightarrow> validatedItem list \<Rightarrow> real \<Rightarrow> real \<Rightarrow> db \<Rightarrow> response \<times> db" where
  "storeAndTotal i validatedItems newSubtotal taxRate d =
     (let (raised, d1) = createOrderItems i validatedItems d
      in (case raised of
            None \<Rightarrow> (Success 200, writeTotals i newSubtotal taxRate d1)
          | Some e \<Rightarrow> (e, d1)))"

definition addOrderItems :: "user \<Rightarrow> ident \<Rightarrow> orderItemInput list \<Rightarrow> db \<Rightarrow> response \<times> db" where
  "addOrderItems u i items d =
    (case orderItemsInvalid items of
       Some msg \<Rightarrow> (Fail 400 msg, d)
     | None \<Rightarrow>
        (case findOrder d i of
           None \<Rightarrow> (Fail 404 ''Order not found'', d)
         | Some ord \<Rightarrow>
            (if notAuthorized u (o_restaurantId ord)
             then (Fail 403 ''Not authorized to update this order'', d)
             else if o_status ord \<notin> {PENDING, PREPARING, READY}
             then (Fail 400 ''Cannot add items to an order with this status'', d)
             else if items = [] then (Fail 400 ''Must provide at least one order item'', d)
             else (case validateItems d (o_restaurantId ord) items 0 [] of
                Inl e \<Rightarrow> (e, d)
              | Inr (additionalSubtotal, validatedItems) \<Rightarrow>
                 (case findRestaurant d (o_restaurantId ord) of
                    None \<Rightarrow> (Fail 500 ''Server Error'', d)
                  | Some rest \<Rightarrow>
                     storeAndTotal i validatedItems (o_subtotal ord + additionalSubtotal)
                       (rs_taxRate rest) d)))))"

text \<open>
  \<^verbatim>\<open>updateOrderItem\<close> does not read the validators of its route. The status and the
  quantity of the body go to the store unchecked; the store raises on a status outside
  the enum and on a quantity outside the 32-bit column.
\<close>

definition quantityRaises :: "int option \<Rightarrow> bool" where
  "quantityRaises quantity =
     (case quantity of None \<Rightarrow> False | Some q \<Rightarrow> q > 0 \<and> \<not> fitsInt q)"

definition updateItemRow ::
  "ident \<Rightarrow> int option \<Rightarrow> item_status option \<Rightarrow> db \<Rightarrow> db" where
  "updateItemRow itemId quantity status d =
     d\<lparr>orderItems := map (\<lambda>it. if oi_id it = itemId
          then (let it1 = (case quantity of
                             None \<Rightarrow> it
                           | Some q \<Rightarrow> if q > 0 then it\<lparr>oi_quantity := q\<rparr> else it)
                in (case status of None \<Rightarrow> it1 | Some st \<Rightarrow> it1\<lparr>oi_status := st\<rparr>))
          else it) (orderItems d)\<rparr>"

definition recalculate :: "ident \<Rightarrow> order \<Rightarrow> db \<Rightarrow> response \<times> db" where
  "recalculate orderId ord d =
    (let newSubtotal = foldl (\<lambda>acc it. acc + itemTotal it) 0 (orderItemsOf d orderId)
     in (case findRestaurant d (o_restaurantId ord) of
           None \<Rightarrow> (Fail 500 ''Server Error'', d)
         | Some rest \<Rightarrow> (Success 200, writeTotals orderId newSubtotal (rs_taxRate rest) d)))"

definition updateOrderItem ::
  "user \<Rightarrow> ident \<Rightarrow> ident \<Rightarrow> int option \<Rightarrow> string option \<Rightarrow> db \<Rightarrow> response \<times> db" where
  "updateOrderItem u orderId itemId quantity status d =
    (case findOrder d orderId of
       None \<Rightarrow> (Fail 404 ''Order not found'', d)
     | Some ord \<Rightarrow>
        (if notAuthorized u (o_restaurantId ord)
         then (Fail 403 ''Not authorized to update this order'', d)
         else if o_status ord \<notin> {PENDING, PREPARING, READY}
         then (Fail 400 ''Cannot update items for an order with this status'', d)
         else (case find (\<lambda>it. oi_id it = itemId \<and> oi_orderId it = orderId) (orderItems d) of
            None \<Rightarrow> (Fail 404 ''Order item not found'', d)
          | Some orderItem \<Rightarrow>
             (if (status \<noteq> None \<and> Option.bind status itemStatusOf = None)
                 \<or> quantityRaises quantity
              then (Fail 500 ''Server Error'', d)
              else (let d1 = updateItemRow itemId quantity (Option.bind status itemStatusOf) d
                    in if quantity \<noteq> None \<and> quantity \<noteq> Some (oi_quantity orderItem)
                       then recalculate orderId ord d1
                       else (Success 200, d1))))))"

definition removeOrderItem :: "user \<Rightarrow> ident \<Rightarrow> ident \<Rightarrow> db \<Rightarrow> response \<times> db" where
  "removeOrderItem u orderId itemId d =
    (case findOrder d orderId of
       None \<Rightarrow> (Fail 404 ''Order not found'', d)
     | Some ord \<Rightarrow>
        (if notAuthorized u (o_restaurantId ord)
         then (Fail 403 ''Not authorized to update this order'', d)
         else if o_status ord \<noteq> PENDING
         then (Fail 400 ''Cannot remove items from an order with this status'', d)
         else if length (orderItemsOf d orderId) \<le> 1
         then (Fail 400 ''Cannot remove the last item from an order. Delete the order instead.'', d)
         else (case find (\<lambda>it. oi_id it = itemId \<and> oi_orderId it = orderId) (orderItems d) of
            None \<Rightarrow> (Fail 404 ''Order item not found'', d)
          | Some orderItem \<Rightarrow>
             (let d1 = d\<lparr>orderItems := filter (\<lambda>it. oi_id it \<noteq> itemId) (orderItems d)\<rparr>;
                  newSubtotal = o_subtotal ord - itemTotal orderItem
              in (case findRestaurant d1 (o_restaurantId ord) of
                    None \<Rightarrow> (Fail 500 ''Server Error'', d1)
                  | Some rest \<Rightarrow>
                     (Success 200, writeTotals orderId newSubtotal (rs_taxRate rest) d1))))))"

section \<open>Kitchen\<close>

definition allReady :: "orderItem list \<Rightarrow> bool" where
  "allReady items = list_all (\<lambda>it. oi_status it = ITEM_READY \<or> oi_status it = ITEM_SERVED) items"

definition allServed :: "orderItem list \<Rightarrow> bool" where
  "allServed items = list_all (\<lambda>it. oi_status it = ITEM_SERVED) items"

text \<open>
  The promotion of the order after an item changed. The second condition is the source's
  \<^verbatim>\<open>allReady && status === 'PENDING' || status === 'PREPARING'\<close>, where
  \<^verbatim>\<open>&&\<close> binds tighter than \<^verbatim>\<open>||\<close>.
\<close>

definition promoteOrder :: "order \<Rightarrow> db \<Rightarrow> db" where
  "promoteOrder ord d =
    (let allOrderItems = orderItemsOf d (o_id ord)
     in if allServed allOrderItems \<and> o_status ord \<noteq> SERVED
        then updateOrder (o_id ord) (\<lambda>x. x\<lparr>o_status := SERVED\<rparr>) d
        else if (allReady allOrderItems \<and> o_status ord = PENDING) \<or> o_status ord = PREPARING
        then updateOrder (o_id ord) (\<lambda>x. x\<lparr>o_status := READY\<rparr>) d
        else d)"

definition updateOrderItemStatus :: "user \<Rightarrow> ident \<Rightarrow> string \<Rightarrow> db \<Rightarrow> response \<times> db" where
  "updateOrderItemStatus u i status d =
    (case itemStatusOf status of
       None \<Rightarrow> (Fail 400 ''Invalid status'', d)
     | Some st \<Rightarrow>
        (case find (\<lambda>it. oi_id it = i) (orderItems d) of
           None \<Rightarrow> (Fail 404 ''Order item not found'', d)
         | Some orderItem \<Rightarrow>
            (case findOrder d (oi_orderId orderItem) of
               None \<Rightarrow> (Fail 500 ''Server Error'', d)
             | Some ord \<Rightarrow>
                (if notAuthorized u (o_restaurantId ord)
                 then (Fail 403 ''Not authorized to update this order item'', d)
                 else (Success 200,
                       promoteOrder ord (updateItemRow i None (Some st) d))))))"

definition cascadeItems :: "ident \<Rightarrow> item_status \<Rightarrow> item_status \<Rightarrow> db \<Rightarrow> db" where
  "cascadeItems i from to d =
     d\<lparr>orderItems := map (\<lambda>it. if oi_orderId it = i \<and> oi_status it = from
                                then it\<lparr>oi_status := to\<rparr> else it) (orderItems d)\<rparr>"

definition updateKitchenOrderStatus :: "user \<Rightarrow> ident \<Rightarrow> string \<Rightarrow> db \<Rightarrow> response \<times> db" where
  "updateKitchenOrderStatus u i status d =
    (if status \<noteq> ''PREPARING'' \<and> status \<noteq> ''READY''
     then (Fail 400 ''Invalid status. Kitchen can only set orders to PREPARING or READY'', d)
     else (case findOrder d i of
        None \<Rightarrow> (Fail 404 ''Order not found'', d)
      | Some ord \<Rightarrow>
         (if notAuthorized u (o_restaurantId ord)
          then (Fail 403 ''Not authorized to update this order'', d)
          else if o_status ord \<notin> {PENDING, PREPARING}
          then (Fail 400 ''Cannot change kitchen status for an order with this status'', d)
          else if status = ''PREPARING''
          then (Success 200,
                cascadeItems i ITEM_PENDING ITEM_PREPARING
                  (updateOrder i (\<lambda>x. x\<lparr>o_status := PREPARING\<rparr>) d))
          else (Success 200,
                cascadeItems i ITEM_PREPARING ITEM_READY
                  (updateOrder i (\<lambda>x. x\<lparr>o_status := READY\<rparr>) d)))))"

section \<open>Gift cards\<close>

record giftCardBody =
  gb_initialBalance :: real
  gb_customerId :: "ident option"
  gb_expiryDate :: "int option"
  gb_code :: "string option"
  gb_restaurantId :: "ident option"

definition issueCard :: "user \<Rightarrow> giftCardBody \<Rightarrow> ident \<Rightarrow> string \<Rightarrow> db \<Rightarrow> db" where
  "issueCard u body restaurantId giftCardCode d =
    (let d1 = d\<lparr>nextId := Suc (nextId d),
                giftCards := giftCards d @
                  [\<lparr>gc_id = nextId d, gc_code = giftCardCode,
                    gc_initialBalance = gb_initialBalance body,
                    gc_currentBalance = gb_initialBalance body,
                    gc_isActive = True, gc_expiryDate = gb_expiryDate body,
                    gc_customerId = gb_customerId body,
                    gc_restaurantId = restaurantId\<rparr>]\<rparr>
     in d1\<lparr>nextId := Suc (nextId d1),
            giftCardTransactions := giftCardTransactions d1 @
              [\<lparr>gt_id = nextId d1, gt_amount = gb_initialBalance body, gt_type = ISSUE,
                gt_giftCardId = nextId d, gt_paymentId = None, gt_userId = u_id u\<rparr>]\<rparr>)"

text \<open>
  \<open>generated\<close> is the code \<^verbatim>\<open>generateGiftCardCode\<close> draws at random; it is used when
  the body gives none. The \<^verbatim>\<open>code\<close> column is unique over all restaurants.
\<close>

definition createGiftCard :: "user \<Rightarrow> giftCardBody \<Rightarrow> string \<Rightarrow> db \<Rightarrow> response \<times> db" where
  "createGiftCard u body generated d =
    (if gb_initialBalance body < 1
     then (Fail 400 ''Initial balance must be greater than 0'', d)
     else (case resolveRestaurantId u (gb_restaurantId body) of
        None \<Rightarrow> (Fail 500 ''Server Error'', d)
      | Some restaurantId \<Rightarrow>
         (if findRestaurant d restaurantId = None
          then (Fail 404 ''Restaurant not found'', d)
          else if (case gb_customerId body of
                     None \<Rightarrow> False
                   | Some cid \<Rightarrow> cid \<notin> set (customers d))
          then (Fail 404 ''Customer not found'', d)
          else (let giftCardCode = (case gb_code body of
                                      None \<Rightarrow> generated
                                    | Some c \<Rightarrow> if c = [] then generated else c)
                in if list_ex (\<lambda>g. gc_code g = giftCardCode \<and> gc_restaurantId g = restaurantId)
                        (giftCards d)
                   then (Fail 400 ''Gift card code already exists'', d)
                   else if list_ex (\<lambda>g. gc_code g = giftCardCode) (giftCards d)
                   then (Fail 400 ''A record with this code already exists'', d)
                   else (Success 201, issueCard u body restaurantId giftCardCode d)))))"

definition adjustBalance :: "ident \<Rightarrow> real \<Rightarrow> bool \<Rightarrow> db \<Rightarrow> db" where
  "adjustBalance i delta active d =
     d\<lparr>giftCards := map (\<lambda>g. if gc_id g = i
          then g\<lparr>gc_currentBalance := gc_currentBalance g + delta, gc_isActive := active\<rparr>
          else g) (giftCards d)\<rparr>"

definition recordTransaction ::
  "user \<Rightarrow> ident \<Rightarrow> transaction_type \<Rightarrow> real \<Rightarrow> ident option \<Rightarrow> db \<Rightarrow> db" where
  "recordTransaction u i ty amount paymentId d =
     d\<lparr>nextId := Suc (nextId d),
       giftCardTransactions := giftCardTransactions d @
         [\<lparr>gt_id = nextId d, gt_amount = amount, gt_type = ty, gt_giftCardId = i,
           gt_paymentId = paymentId, gt_userId = u_id u\<rparr>]\<rparr>"

definition redeemCard :: "user \<Rightarrow> giftCard \<Rightarrow> real \<Rightarrow> ident option \<Rightarrow> db \<Rightarrow> response \<times> db" where
  "redeemCard u giftCard amount orderId d =
    (let d1 = (case orderId of
                 None \<Rightarrow> d
               | Some oid \<Rightarrow>
                  d\<lparr>nextId := Suc (nextId d),
                    payments := payments d @
                      [\<lparr>p_id = nextId d, p_amount = amount, p_status = PAY_COMPLETED,
                        p_orderId = oid, p_userId = u_id u\<rparr>]\<rparr>);
         paymentId = (case orderId of None \<Rightarrow> None | Some oid \<Rightarrow> Some (nextId d));
         d2 = adjustBalance (gc_id giftCard) (- amount)
                (gc_currentBalance giftCard - amount > 0) d1
     in (Success 200, recordTransaction u (gc_id giftCard) REDEEM amount paymentId d2))"

definition redeemGiftCard ::
  "int \<Rightarrow> user \<Rightarrow> string \<Rightarrow> real \<Rightarrow> ident option \<Rightarrow> db \<Rightarrow> response \<times> db" where
  "redeemGiftCard clock u code amount orderId d =
    (if code = [] then (Fail 400 ''Gift card code is required'', d)
     else if amount < 1 / 100 then (Fail 400 ''Amount must be greater than 0'', d)
     else (case find (\<lambda>g. gc_code g = code \<and> Some (gc_restaurantId g) = u_restaurantId u)
                  (giftCards d) of
        None \<Rightarrow> (Fail 404 ''Gift card not found'', d)
      | Some giftCard \<Rightarrow>
         (if \<not> gc_isActive giftCard then (Fail 400 ''Gift card is inactive'', d)
          else if (case gc_expiryDate giftCard of None \<Rightarrow> False | Some e \<Rightarrow> e < clock)
          then (Fail 400 ''Gift card is expired'', d)
          else if gc_currentBalance giftCard < amount
          then (Fail 400 ''Insufficient balance'', d)
          else (case orderId of
             None \<Rightarrow> redeemCard u giftCard amount None d
           | Some oid \<Rightarrow>
              (case findOrder d oid of
                 None \<Rightarrow> (Fail 404 ''Order not found'', d)
               | Some ord \<Rightarrow>
                  (if Some (o_restaurantId ord) \<noteq> u_restaurantId u
                   then (Fail 403 ''Not authorized to process payment for this order'', d)
                   else redeemCard u giftCard amount (Some oid) d))))))"

definition addFunds :: "user \<Rightarrow> ident \<Rightarrow> real \<Rightarrow> db \<Rightarrow> response \<times> db" where
  "addFunds u i amount d =
    (if amount < 1 / 100 then (Fail 400 ''Amount must be greater than 0'', d)
     else (case find (\<lambda>g. gc_id g = i) (giftCards d) of
        None \<Rightarrow> (Fail 404 ''Gift card not found'', d)
      | Some giftCard \<Rightarrow>
         (if notAuthorized u (gc_restaurantId giftCard)
          then (Fail 403 ''Not authorized to modify this gift card'', d)
          else (Success 200,
                recordTransaction u i LOAD amount None (adjustBalance i amount True d)))))"

text \<open>
  \<^verbatim>\<open>updateGiftCardStatus\<close> also writes the ledger: a deactivation is recorded as an
  \<^verbatim>\<open>ISSUE\<close> of amount 0.
\<close>

definition updateGiftCardStatus :: "user \<Rightarrow> ident \<Rightarrow> bool option \<Rightarrow> db \<Rightarrow> response \<times> db" where
  "updateGiftCardStatus u i active d =
    (case active of
       None \<Rightarrow> (Fail 400 ''isActive field is required'', d)
     | Some a \<Rightarrow>
        (case find (\<lambda>g. gc_id g = i) (giftCards d) of
           None \<Rightarrow> (Fail 404 ''Gift card not found'', d)
         | Some giftCard \<Rightarrow>
            (if notAuthorized u (gc_restaurantId giftCard)
             then (Fail 403 ''Not authorized to modify this gift card'', d)
             else (let d1 = d\<lparr>giftCards := map (\<lambda>g. if gc_id g = i
                                  then g\<lparr>gc_isActive := a\<rparr> else g) (giftCards d)\<rparr>
                   in (Success 200,
                       if \<not> a then recordTransaction u i ISSUE 0 None d1 else d1)))))"

text \<open>The signed amount of a ledger row: a redemption counts negative.\<close>

definition signedAmount :: "giftCardTransaction \<Rightarrow> real" where
  "signedAmount t = (if gt_type t = REDEEM then - gt_amount t else gt_amount t)"

definition transactionsOf :: "db \<Rightarrow> ident \<Rightarrow> giftCardTransaction list" where
  "transactionsOf d i = filter (\<lambda>t. gt_giftCardId t = i) (giftCardTransactions d)"

definition ledgerSum :: "db \<Rightarrow> ident \<Rightarrow> real" where
  "ledgerSum d i = sum_list (map signedAmount (transactionsOf d i))"

section \<open>Voucher creation\<close>

record voucherBody =
  vb_code :: "string option"
  vb_type :: voucher_type
  vb_value :: real
  vb_minPurchase :: "real option"
  vb_startDate :: int
  vb_expiryDate :: int
  vb_usageLimit :: "int option"
  vb_isActive :: "bool option"
  vb_restaurantId :: "ident option"

text \<open>
  The validators of the route accept every value from 0 upwards, for every voucher type.
  \<open>generated\<close> is the code \<^verbatim>\<open>generateVoucherCode\<close> draws at random.
\<close>

definition createVoucher :: "user \<Rightarrow> voucherBody \<Rightarrow> string \<Rightarrow> db \<Rightarrow> response \<times> db" where
  "createVoucher u body generated d =
    (if vb_value body < 0 then (Fail 400 ''Value must be a positive number'', d)
     else if vb_expiryDate body \<le> vb_startDate body
     then (Fail 400 ''Expiry date must be after start date'', d)
     else (case resolveRestaurantId u (vb_restaurantId body) of
        None \<Rightarrow> (Fail 500 ''Server Error'', d)
      | Some restaurantId \<Rightarrow>
         (if findRestaurant d restaurantId = None
          then (Fail 404 ''Restaurant not found'', d)
          else (let voucherCode = (case vb_code body of
                                     None \<Rightarrow> generated
                                   | Some c \<Rightarrow> if c = [] then generated else c)
                in if list_ex (\<lambda>v. v_code v = voucherCode \<and> v_restaurantId v = restaurantId)
                        (vouchers d)
                   then (Fail 400 ''Voucher code already exists'', d)
                   else if list_ex (\<lambda>v. v_code v = voucherCode) (vouchers d)
                   then (Fail 400 ''A record with this code already exists'', d)
                   else (Success 201,
                         d\<lparr>nextId := Suc (nextId d),
                           vouchers := vouchers d @
                             [\<lparr>v_id = nextId d, v_code = voucherCode, v_type = vb_type body,
                               v_value = vb_value body,
                               v_minPurchase = (case vb_minPurchase body of
                                                  None \<Rightarrow> 0 | Some m \<Rightarrow> m),
                               v_isActive = (case vb_isActive body of
                                               None \<Rightarrow> True | Some a \<Rightarrow> a),
                               v_startDate = vb_startDate body,
                               v_expiryDate = vb_expiryDate body,
                               v_usageLimit = vb_usageLimit body, v_usageCount = 0,
                               v_restaurantId = restaurantId\<rparr>]\<rparr>)))))"

section \<open>Payments\<close>

text \<open>
  \<^verbatim>\<open>createPayment\<close> is the one handler outside the order, kitchen and voucher controllers
  that writes an order row: a payment that covers the total completes a served order and
  frees its table. The sum already paid counts the completed payments of the order. The
  message of the last rejection goes on with the three amounts.
\<close>

definition totalPaid :: "db \<Rightarrow> ident \<Rightarrow> real" where
  "totalPaid d i =
     foldl (\<lambda>sum p. if p_status p = PAY_COMPLETED then sum + p_amount p else sum) 0
       (filter (\<lambda>p. p_orderId p = i) (payments d))"

definition settle :: "int \<Rightarrow> ident \<Rightarrow> order \<Rightarrow> db \<Rightarrow> db" where
  "settle clock orderId ord d =
    (let d1 = (if o_status ord = SERVED
               then updateOrder orderId
                      (\<lambda>x. x\<lparr>o_status := COMPLETED, o_completedAt := Some clock\<rparr>) d
               else d)
     in (case o_tableId ord of
           None \<Rightarrow> d1
         | Some tid \<Rightarrow> releaseTable tid orderId d1))"

definition createPayment :: "int \<Rightarrow> user \<Rightarrow> ident \<Rightarrow> real \<Rightarrow> db \<Rightarrow> response \<times> db" where
  "createPayment clock u orderId amount d =
    (if amount < 1 / 100 then (Fail 400 ''Amount must be greater than zero'', d)
     else (case findOrder d orderId of
        None \<Rightarrow> (Fail 404 ''Order not found'', d)
      | Some ord \<Rightarrow>
         (if notAuthorized u (o_restaurantId ord)
          then (Fail 403 ''Not authorized to create payment for this order'', d)
          else if o_status ord = CANCELLED
          then (Fail 400 ''Cannot process payment for a cancelled order'', d)
          else if totalPaid d orderId + amount > o_total ord
          then (Fail 400 ''Payment would exceed order total'', d)
          else (let d1 = d\<lparr>nextId := Suc (nextId d),
                           payments := payments d @
                             [\<lparr>p_id = nextId d, p_amount = amount, p_status = PAY_COMPLETED,
                               p_orderId = orderId, p_userId = u_id u\<rparr>]\<rparr>
                in (Success 201,
                    if totalPaid d orderId + amount \<ge> o_total ord
                    then settle clock orderId ord d1 else d1)))))"

section \<open>Predicates on stores\<close>

text \<open>
  The gift-card ledger. Identifiers come from the counter of the store, so every row
  refers to identifiers below it; the balance of a card is the signed sum of its rows.
\<close>

definition idsDrawn :: "db \<Rightarrow> bool" where
  "idsDrawn d \<longleftrightarrow>
     (\<forall>g \<in> set (giftCards d). gc_id g < nextId d) \<and>
     (\<forall>t \<in> set (giftCardTransactions d). gt_giftCardId t < nextId d)"

definition balanceIsLedger :: "db \<Rightarrow> bool" where
  "balanceIsLedger d \<longleftrightarrow>
     (\<forall>g \<in> set (giftCards d). gc_currentBalance g = ledgerSum d (gc_id g))"

definition ledgerInvariant :: "db \<Rightarrow> bool" where
  "ledgerInvariant d \<longleftrightarrow> idsDrawn d \<and> balanceIsLedger d"

text \<open>
  The line total in the words of the specification, read off a stored row: unit price plus
  the modifier prices, times the quantity.
\<close>

definition lineTotal :: "orderItem \<Rightarrow> real" where
  "lineTotal it =
     (oi_price it + sum_list (map oim_price (oi_modifiers it))) * of_int (oi_quantity it)"

text \<open>Every order row has at least one item row.\<close>

definition everyOrderHasItem :: "db \<Rightarrow> bool" where
  "everyOrderHasItem d \<longleftrightarrow> (\<forall>x \<in> set (orders d). orderItemsOf d (o_id x) \<noteq> [])"

text \<open>
  What a request item costs, read off the request and the catalogue of the store as the
  specification words it: the price of the menu item plus the prices of the selected
  modifiers, times the requested quantity. A modifier is looked up among all the
  modifiers of the menu item's groups.
\<close>

definition catalogPrice :: "db \<Rightarrow> ident \<Rightarrow> real" where
  "catalogPrice d mid =
     (case find (\<lambda>m. mi_id m = mid) (menuItems d) of
        None \<Rightarrow> 0
      | Some m \<Rightarrow> mi_price m)"

definition modifierPriceOf :: "db \<Rightarrow> ident \<Rightarrow> ident \<Rightarrow> real" where
  "modifierPriceOf d mid modifierId =
     (case find (\<lambda>m. mi_id m = mid) (menuItems d) of
        None \<Rightarrow> 0
      | Some m \<Rightarrow>
         (case find (\<lambda>x. m_id x = modifierId) (concat (mi_modifierGroups m)) of
            None \<Rightarrow> 0
          | Some x \<Rightarrow> m_price x))"

definition requestedLineTotal :: "db \<Rightarrow> orderItemInput \<Rightarrow> real" where
  "requestedLineTotal d item =
     (catalogPrice d (in_menuItemId item)
        + sum_list (map (modifierPriceOf d (in_menuItemId item)) (in_modifierIds item)))
       * of_int (in_quantity item)"

text \<open>The modifier rows a request item asks for, at the prices of the catalogue.\<close>

definition selectedModifiers :: "db \<Rightarrow> orderItemInput \<Rightarrow> orderItemModifier list" where
  "selectedModifiers d item =
     map (\<lambda>modifierId. \<lparr>oim_modifierId = modifierId,
                           oim_price = modifierPriceOf d (in_menuItemId item) modifierId\<rparr>)
       (in_modifierIds item)"

text \<open>
  The stores the handlers produce: any store without orders, and what a handler leaves
  behind, whatever it answers. The first eleven handlers are the ones of the repository
  that write an order row; rule \<open>other\<close> stands for every other handler, which may change
  any table but the orders. The order rows of such a store were all written by these
  handlers.
\<close>

inductive reachable :: "db \<Rightarrow> bool" where
  start: "orders d = [] \<Longrightarrow> reachable d"
| createOrder: "reachable d \<Longrightarrow> reachable (snd (createOrder u body d))"
| updateOrderStatus: "reachable d \<Longrightarrow> reachable (snd (updateOrderStatus clock u i status d))"
| cancelOrder: "reachable d \<Longrightarrow> reachable (snd (cancelOrder clock u i d))"
| addOrderItems: "reachable d \<Longrightarrow> reachable (snd (addOrderItems u i items d))"
| updateOrderItem:
    "reachable d \<Longrightarrow> reachable (snd (updateOrderItem u orderId itemId quantity st d))"
| removeOrderItem: "reachable d \<Longrightarrow> reachable (snd (removeOrderItem u orderId itemId d))"
| updateOrderItemStatus: "reachable d \<Longrightarrow> reachable (snd (updateOrderItemStatus u i status d))"
| updateKitchenOrderStatus:
    "reachable d \<Longrightarrow> reachable (snd (updateKitchenOrderStatus u i status d))"
| applyVoucher: "reachable d \<Longrightarrow> reachable (snd (applyVoucher clock u code orderId d))"
| removeVoucher: "reachable d \<Longrightarrow> reachable (snd (removeVoucher u orderId d))"
| createPayment: "reachable d \<Longrightarrow> reachable (snd (createPayment clock u orderId amount d))"
| other: "reachable d \<Longrightarrow> orders d' = orders d \<Longrightarrow> reachable d'"

text \<open>
  What the handlers keep on every order row: no tip (no handler of the repository writes
  \<^verbatim>\<open>Order.tip\<close>), and the total is the subtotal plus the tax.
\<close>

definition totalsWithoutTip :: "db \<Rightarrow> bool" where
  "totalsWithoutTip d \<longleftrightarrow>
     (\<forall>x \<in> set (orders d). o_tip x = None \<and> o_total x = o_subtotal x + o_tax x)"

text \<open>The equation of the totals, with a missing tip counting as 0.\<close>

definition totalsAgree :: "order \<Rightarrow> bool" where
  "totalsAgree x \<longleftrightarrow> o_total x = o_subtotal x + o_tax x + tipOr0 x"

section \<open>Example stores\<close>

text \<open>Concrete rows and stores, on which the properties below are exercised.\<close>

definition exServer :: user where
  "exServer = \<lparr>u_id = 7, u_role = SERVER, u_restaurantId = Some 1\<rparr>"

definition exManager :: user where
  "exManager = \<lparr>u_id = 8, u_role = MANAGER, u_restaurantId = Some 1\<rparr>"

definition exOrder :: order where
  "exOrder = \<lparr>o_id = 10, o_status = PENDING, o_type = DINE_IN, o_completedAt = None,
     o_subtotal = 30, o_tax = 24 / 10, o_tip = None, o_total = 324 / 10,
     o_tableId = None, o_userId = 7, o_customerId = None, o_restaurantId = 1\<rparr>"

definition exStore :: db where
  "exStore = \<lparr>nextId = 100, restaurants = [\<lparr>rs_id = 1, rs_taxRate = 8\<rparr>], tables = [],
     customers = [], menuItems = [], orders = [exOrder], orderItems = [], vouchers = [],
     voucherRedemptions = [], giftCards = [], giftCardTransactions = [], payments = []\<rparr>"

definition exVoucherBody :: "voucher_type \<Rightarrow> real \<Rightarrow> voucherBody" where
  "exVoucherBody ty val = \<lparr>vb_code = Some ''SAVE'', vb_type = ty, vb_value = val,
     vb_minPurchase = None, vb_startDate = 0, vb_expiryDate = voucherNow + 1000,
     vb_usageLimit = None, vb_isActive = None, vb_restaurantId = None\<rparr>"

text \<open>The store after a manager created the voucher \<^verbatim>\<open>SAVE\<close> of the given type and value.\<close>

definition exVoucherStore :: "voucher_type \<Rightarrow> real \<Rightarrow> db" where
  "exVoucherStore ty val = snd (createVoucher exManager (exVoucherBody ty val) ''PROMO-1'' exStore)"

definition exGiftCardBody :: giftCardBody where
  "exGiftCardBody = \<lparr>gb_initialBalance = 50, gb_customerId = None, gb_expiryDate = None,
     gb_code = None, gb_restaurantId = None\<rparr>"

text \<open>The store after a manager issued a gift card of 50.\<close>

definition exCardStore :: db where
  "exCardStore = snd (createGiftCard exManager exGiftCardBody ''A1B2-C3D4-E5F6'' exStore)"

definition exKitchen :: user where
  "exKitchen = \<lparr>u_id = 9, u_role = KITCHEN, u_restaurantId = Some 1\<rparr>"

text \<open>
  A store with a menu and no order: item 1 costs 10.00, item 2 costs 5.00, item 3 costs
  1.01 and has one modifier of 0.50. The tax rate of the restaurant is 8.
\<close>

definition exMenuStore :: db where
  "exMenuStore = \<lparr>nextId = 100, restaurants = [\<lparr>rs_id = 1, rs_taxRate = 8\<rparr>],
     tables = [\<lparr>t_id = 3, t_restaurantId = 1, t_status = AVAILABLE\<rparr>],
     customers = [],
     menuItems =
       [\<lparr>mi_id = 1, mi_restaurantId = 1, mi_price = 10, mi_available = True,
          mi_modifierGroups = []\<rparr>,
        \<lparr>mi_id = 2, mi_restaurantId = 1, mi_price = 5, mi_available = True,
          mi_modifierGroups = []\<rparr>,
        \<lparr>mi_id = 3, mi_restaurantId = 1, mi_price = 101 / 100, mi_available = True,
          mi_modifierGroups = [[\<lparr>m_id = 30, m_price = 1 / 2, m_available = True\<rparr>]]\<rparr>],
     orders = [], orderItems = [], vouchers = [], voucherRedemptions = [],
     giftCards = [], giftCardTransactions = [], payments = []\<rparr>"

definition exItem :: "ident \<Rightarrow> int \<Rightarrow> orderItemInput" where
  "exItem mid q = \<lparr>in_menuItemId = mid, in_quantity = q, in_modifierIds = []\<rparr>"

definition exBody :: "orderItemInput list \<Rightarrow> createOrderBody" where
  "exBody items = \<lparr>b_tableId = Some 3, b_customerId = None, b_type = None,
     b_orderItems = items, b_restaurantId = None\<rparr>"

text \<open>The spec's scenario: items of 10.00 and 5.00, two of each. The order gets id 100.\<close>

definition exOrderStore :: db where
  "exOrderStore = snd (createOrder exServer (exBody [exItem 1 2, exItem 2 2]) exMenuStore)"

text \<open>An order of a single item (order 100, item 101).\<close>

definition exSingleStore :: db where
  "exSingleStore = snd (createOrder exServer (exBody [exItem 1 1]) exMenuStore)"

text \<open>The scenario order after it was completed at time 1.\<close>

definition exCompletedStore :: db where
  "exCompletedStore = snd (updateOrderStatus 1 exServer 100 ''COMPLETED'' exOrderStore)"

text \<open>The scenario order after one more item of 10.00 was added.\<close>

definition exAddedStore :: db where
  "exAddedStore = snd (addOrderItems exServer 100 [exItem 1 1] exOrderStore)"

text \<open>A request for two of item 3 with its modifier, and one for 2147483648 of item 1.\<close>

definition exModifierBody :: createOrderBody where
  "exModifierBody =
     exBody [\<lparr>in_menuItemId = 3, in_quantity = 2, in_modifierIds = [30]\<rparr>]"

definition exOverflowBody :: createOrderBody where
  "exOverflowBody = exBody [exItem 1 2147483648]"

text \<open>The scenario store after a manager created the voucher \<^verbatim>\<open>SAVE\<close> of 10 percent.\<close>

definition exPromoStore :: db where
  "exPromoStore =
     snd (createVoucher exManager (exVoucherBody PERCENTAGE 10) ''PROMO-1'' exOrderStore)"

section \<open>Properties of the vouchers\<close>

lemmas example_defs =
  exServer_def exManager_def exOrder_def exStore_def

lemmas voucher_defs =
  applyVoucher_def checkVoucher_def applyDiscount_def removeVoucher_def restoreTotals_def
  findOrder_def findRestaurant_def updateOrder_def redemptionsOf_def notAuthorized_def
  round2_def tipOr0_def voucherNow_def voucherDiscount_def usageExhausted_def
  discountFactor_def originalSubtotal_def createVoucher_def resolveRestaurantId_def
  exVoucherBody_def exVoucherStore_def

text \<open>
  Claim C3, evaluated on the code. The claim: applying a voucher and removing it at once
  restores subtotal, tax and total within 0.01, for every voucher type and value. On an
  order of subtotal 30.00 (tax 2.40, total 32.40, tax rate 8) a \<^verbatim>\<open>FIXED_AMOUNT\<close> voucher
  of value 50 is applied with the discount capped at the subtotal, and removed by adding
  the uncapped value back: both calls succeed and the order ends at subtotal 50, tax 4,
  total 54.
\<close>

theorem applyVoucher_removeVoucher_capped_fixed_amount:
  "fst (applyVoucher 0 exServer ''SAVE'' 10 (exVoucherStore FIXED_AMOUNT 50)) = Success 200 \<and>
   orders (snd (applyVoucher 0 exServer ''SAVE'' 10 (exVoucherStore FIXED_AMOUNT 50)))
     = [exOrder\<lparr>o_subtotal := 0, o_tax := 0, o_total := 0\<rparr>] \<and>
   fst (removeVoucher exManager 10
     (snd (applyVoucher 0 exServer ''SAVE'' 10 (exVoucherStore FIXED_AMOUNT 50)))) = Success 200 \<and>
   orders (snd (removeVoucher exManager 10
     (snd (applyVoucher 0 exServer ''SAVE'' 10 (exVoucherStore FIXED_AMOUNT 50)))))
     = [exOrder\<lparr>o_subtotal := 50, o_tax := 4, o_total := 54\<rparr>] \<and>
   o_subtotal exOrder = 30"
  by (simp add: example_defs voucher_defs Let_def)

text \<open>
  Claim C9. In a call of \<^verbatim>\<open>removeVoucher\<close> that reaches the reconstruction (the order
  exists, the caller may touch it, the order's first redemption names the voucher) with a
  \<^verbatim>\<open>PERCENTAGE\<close> voucher: if the value is below 100 the divisor \<open>1 - value / 100\<close> is
  not zero and the call does not leave the finite numbers; if the value is 100 the
  divisor is zero and the call divides by it, no check having rejected it.
\<close>

theorem removeVoucher_percentage_divisor:
  assumes "findOrder d orderId = Some ord"
      and "\<not> notAuthorized u (o_restaurantId ord)"
      and "redemptionsOf d orderId = r # rs"
      and "find (\<lambda>v. v_id v = vr_voucherId r) (vouchers d) = Some v"
      and "v_type v = PERCENTAGE"
  shows "(v_value v < 100 \<longrightarrow>
            discountFactor v \<noteq> 0 \<and> fst (removeVoucher u orderId d) \<noteq> NonFinite) \<and>
         (v_value v = 100 \<longrightarrow>
            discountFactor v = 0 \<and> removeVoucher u orderId d = (NonFinite, d))"
  using assms
  by (auto simp: removeVoucher_def discountFactor_def split: option.splits)

text \<open>
  The witness runs the whole path on the example store: a manager creates a 100 percent
  voucher (the validators accept it), a server applies it, and the removal divides by
  zero; with a 20 percent voucher the removal stays within the finite numbers.
\<close>

theorem removeVoucher_percentage_divisor_witness:
  "fst (createVoucher exManager (exVoucherBody PERCENTAGE 100) ''PROMO-1'' exStore) = Success 201 \<and>
   fst (applyVoucher 0 exServer ''SAVE'' 10 (exVoucherStore PERCENTAGE 100)) = Success 200 \<and>
   removeVoucher exManager 10
      (snd (applyVoucher 0 exServer ''SAVE'' 10 (exVoucherStore PERCENTAGE 100)))
     = (NonFinite, snd (applyVoucher 0 exServer ''SAVE'' 10 (exVoucherStore PERCENTAGE 100))) \<and>
   fst (removeVoucher exManager 10
      (snd (applyVoucher 0 exServer ''SAVE'' 10 (exVoucherStore PERCENTAGE 20)))) \<noteq> NonFinite"
proof -
  let ?d = "snd (applyVoucher 0 exServer ''SAVE'' 10 (exVoucherStore PERCENTAGE 100))"
  let ?ord = "exOrder\<lparr>o_subtotal := 0, o_tax := 0, o_total := 0\<rparr>"
  let ?r = "\<lparr>vr_id = 101, vr_createdAt = 0, vr_voucherId = 100, vr_orderId = 10,
             vr_userId = 7\<rparr>"
  let ?v = "\<lparr>v_id = 100, v_code = ''SAVE'', v_type = PERCENTAGE, v_value = 100,
             v_minPurchase = 0, v_isActive = True, v_startDate = 0,
             v_expiryDate = voucherNow + 1000, v_usageLimit = None, v_usageCount = 1,
             v_restaurantId = 1\<rparr>"
  let ?d20 = "snd (applyVoucher 0 exServer ''SAVE'' 10 (exVoucherStore PERCENTAGE 20))"
  let ?ord20 = "exOrder\<lparr>o_subtotal := 24, o_tax := 192 / 100, o_total := 2592 / 100\<rparr>"
  let ?v20 = "?v\<lparr>v_value := 20\<rparr>"
  have created: "fst (createVoucher exManager (exVoucherBody PERCENTAGE 100) ''PROMO-1'' exStore)
      = Success 201"
    by (simp add: example_defs voucher_defs Let_def)
  have applied: "fst (applyVoucher 0 exServer ''SAVE'' 10 (exVoucherStore PERCENTAGE 100))
      = Success 200"
    by (simp add: example_defs voucher_defs Let_def)
  have h1: "findOrder ?d 10 = Some ?ord"
    by (simp add: example_defs voucher_defs Let_def)
  have h2: "\<not> notAuthorized exManager (o_restaurantId ?ord)"
    by (simp add: example_defs notAuthorized_def)
  have h3: "redemptionsOf ?d 10 = ?r # []"
    by (simp add: example_defs voucher_defs Let_def)
  have h4: "find (\<lambda>v. v_id v = vr_voucherId ?r) (vouchers ?d) = Some ?v"
    by (simp add: example_defs voucher_defs Let_def)
  have h5: "v_type ?v = PERCENTAGE"
    by simp
  from removeVoucher_percentage_divisor [OF h1 h2 h3 h4 h5]
  have zero: "removeVoucher exManager 10 ?d = (NonFinite, ?d)"
    by simp
  have k1: "findOrder ?d20 10 = Some ?ord20"
    by (simp add: example_defs voucher_defs Let_def)
  have k2: "\<not> notAuthorized exManager (o_restaurantId ?ord20)"
    by (simp add: example_defs notAuthorized_def)
  have k3: "redemptionsOf ?d20 10 = ?r # []"
    by (simp add: example_defs voucher_defs Let_def)
  have k4: "find (\<lambda>v. v_id v = vr_voucherId ?r) (vouchers ?d20) = Some ?v20"
    by (simp add: example_defs voucher_defs Let_def)
  have k5: "v_type ?v20 = PERCENTAGE"
    by simp
  from removeVoucher_percentage_divisor [OF k1 k2 k3 k4 k5]
  have "fst (removeVoucher exManager 10 ?d20) \<noteq> NonFinite"
    by simp
  with created applied zero show ?thesis
    by simp
qed

text \<open>
  Claim C10. The response of \<^verbatim>\<open>applyVoucher\<close> and the totals it writes are the same
  at every system time: the date checks compare against the literal \<open>voucherNow\<close>. A
  voucher whose expiry date is after \<open>voucherNow\<close> is never rejected as expired, whatever
  the system time.
\<close>

theorem applyVoucher_ignores_clock:
  "fst (applyVoucher t1 u code orderId d) = fst (applyVoucher t2 u code orderId d) \<and>
   orders (snd (applyVoucher t1 u code orderId d))
     = orders (snd (applyVoucher t2 u code orderId d)) \<and>
   (findOrder d orderId = Some ord \<longrightarrow>
    find (\<lambda>v. v_code v = code \<and> v_restaurantId v = o_restaurantId ord) (vouchers d) = Some v \<longrightarrow>
    voucherNow < v_expiryDate v \<longrightarrow>
    fst (applyVoucher t1 u code orderId d) \<noteq> Fail 400 ''Voucher expired'')"
  by (auto simp: applyVoucher_def checkVoucher_def applyDiscount_def updateOrder_def Let_def
           split: option.splits)

text \<open>
  The witness: the example voucher expires 1000 ms after \<open>voucherNow\<close>; at a system time
  5000 ms after \<open>voucherNow\<close> it is applied all the same.
\<close>

theorem applyVoucher_ignores_clock_witness:
  "v_expiryDate (hd (vouchers (exVoucherStore PERCENTAGE 20))) < voucherNow + 5000 \<and>
   fst (applyVoucher (voucherNow + 5000) exServer ''SAVE'' 10 (exVoucherStore PERCENTAGE 20))
     = Success 200 \<and>
   fst (applyVoucher (voucherNow + 5000) exServer ''SAVE'' 10 (exVoucherStore PERCENTAGE 20))
     \<noteq> Fail 400 ''Voucher expired''"
proof -
  let ?d = "exVoucherStore PERCENTAGE 20"
  let ?v = "\<lparr>v_id = 100, v_code = ''SAVE'', v_type = PERCENTAGE, v_value = 20,
             v_minPurchase = 0, v_isActive = True, v_startDate = 0,
             v_expiryDate = voucherNow + 1000, v_usageLimit = None, v_usageCount = 0,
             v_restaurantId = 1\<rparr>"
  have h1: "findOrder ?d 10 = Some exOrder"
    by (simp add: example_defs voucher_defs)
  have h2: "find (\<lambda>v. v_code v = ''SAVE'' \<and> v_restaurantId v = o_restaurantId exOrder)
              (vouchers ?d) = Some ?v"
    by (simp add: example_defs voucher_defs)
  have h3: "voucherNow < v_expiryDate ?v"
    by simp
  have e: "v_expiryDate (hd (vouchers ?d)) < voucherNow + 5000"
    by (simp add: example_defs voucher_defs)
  have s: "fst (applyVoucher 0 exServer ''SAVE'' 10 ?d) = Success 200"
    by (simp add: example_defs voucher_defs Let_def)
  from applyVoucher_ignores_clock [of "voucherNow + 5000" exServer "''SAVE''" 10 ?d 0 exOrder ?v]
       h1 h2 h3 s e
  show ?thesis
    by simp
qed

section \<open>Properties of the gift cards\<close>

lemmas giftCard_defs =
  createGiftCard_def issueCard_def redeemGiftCard_def redeemCard_def addFunds_def
  updateGiftCardStatus_def adjustBalance_def recordTransaction_def ledgerSum_def
  transactionsOf_def signedAmount_def findOrder_def findRestaurant_def notAuthorized_def
  resolveRestaurantId_def

lemma ledgerSum_recordTransaction:
  "ledgerSum (recordTransaction u i ty amount pid d) j =
     ledgerSum d j + (if j = i then (if ty = REDEEM then - amount else amount) else 0)"
  by (simp add: ledgerSum_def transactionsOf_def recordTransaction_def signedAmount_def)

lemma ledgerSum_adjustBalance: "ledgerSum (adjustBalance i delta a d) j = ledgerSum d j"
  by (simp add: ledgerSum_def transactionsOf_def adjustBalance_def)

lemma ledgerSum_frame:
  "giftCardTransactions d' = giftCardTransactions d \<Longrightarrow> ledgerSum d' j = ledgerSum d j"
  by (simp add: ledgerSum_def transactionsOf_def)

lemma giftCards_recordTransaction [simp]:
  "giftCards (recordTransaction u i ty amount pid d) = giftCards d"
  by (simp add: recordTransaction_def)

lemma nextId_recordTransaction [simp]:
  "nextId (recordTransaction u i ty amount pid d) = Suc (nextId d)"
  by (simp add: recordTransaction_def)

lemma nextId_adjustBalance [simp]: "nextId (adjustBalance i delta a d) = nextId d"
  by (simp add: adjustBalance_def)

lemma giftCardTransactions_adjustBalance [simp]:
  "giftCardTransactions (adjustBalance i delta a d) = giftCardTransactions d"
  by (simp add: adjustBalance_def)

lemma in_giftCards_adjustBalance:
  "g \<in> set (giftCards (adjustBalance i delta a d)) \<Longrightarrow>
   \<exists>x \<in> set (giftCards d). gc_id g = gc_id x \<and>
      gc_currentBalance g = gc_currentBalance x + (if gc_id x = i then delta else 0)"
  by (auto simp: adjustBalance_def)

lemma in_transactions_recordTransaction:
  "t \<in> set (giftCardTransactions (recordTransaction u i ty amount pid d)) \<Longrightarrow>
   t \<in> set (giftCardTransactions d) \<or> gt_giftCardId t = i"
  by (auto simp: recordTransaction_def)

lemma inv_adjust_record:
  assumes inv: "ledgerInvariant d"
    and signed: "signed = (if ty = REDEEM then - amount else amount)"
    and i: "i < nextId d"
  shows "ledgerInvariant (recordTransaction u i ty amount pid (adjustBalance i signed a d))"
    (is "ledgerInvariant ?d'")
proof -
  have ids: "idsDrawn ?d'"
    unfolding idsDrawn_def
  proof (intro conjI ballI)
    fix g assume "g \<in> set (giftCards ?d')"
    then obtain x where "x \<in> set (giftCards d)" "gc_id g = gc_id x"
      using in_giftCards_adjustBalance by fastforce
    with inv show "gc_id g < nextId ?d'"
      by (simp add: ledgerInvariant_def idsDrawn_def less_Suc_eq)
  next
    fix t assume "t \<in> set (giftCardTransactions ?d')"
    then have "t \<in> set (giftCardTransactions d) \<or> gt_giftCardId t = i"
      using in_transactions_recordTransaction by fastforce
    with inv i show "gt_giftCardId t < nextId ?d'"
      by (auto simp: ledgerInvariant_def idsDrawn_def less_Suc_eq)
  qed
  have bal: "balanceIsLedger ?d'"
    unfolding balanceIsLedger_def
  proof (intro ballI)
    fix g assume "g \<in> set (giftCards ?d')"
    then obtain x where x: "x \<in> set (giftCards d)" "gc_id g = gc_id x"
      "gc_currentBalance g = gc_currentBalance x + (if gc_id x = i then signed else 0)"
      using in_giftCards_adjustBalance by fastforce
    from inv x have "gc_currentBalance x = ledgerSum d (gc_id x)"
      by (simp add: ledgerInvariant_def balanceIsLedger_def)
    with x signed show "gc_currentBalance g = ledgerSum ?d' (gc_id g)"
      by (simp add: ledgerSum_recordTransaction ledgerSum_adjustBalance)
  qed
  from ids bal show ?thesis
    by (simp add: ledgerInvariant_def)
qed

lemma ledgerInvariant_frame:
  assumes "ledgerInvariant d" "giftCards d' = giftCards d"
    "giftCardTransactions d' = giftCardTransactions d" "nextId d \<le> nextId d'"
  shows "ledgerInvariant d'"
  using assms
  by (fastforce simp: ledgerInvariant_def idsDrawn_def balanceIsLedger_def ledgerSum_def
        transactionsOf_def)

lemma find_gc_id: "find (\<lambda>g. gc_id g = i) xs = Some g \<Longrightarrow> g \<in> set xs \<and> gc_id g = i"
  by (auto simp: find_Some_iff)

lemma addFunds_inv:
  assumes "ledgerInvariant d"
  shows "ledgerInvariant (snd (addFunds u i amount d))"
proof (cases "find (\<lambda>g. gc_id g = i) (giftCards d)")
  case None
  with assms show ?thesis by (simp add: addFunds_def)
next
  case (Some g)
  then have "g \<in> set (giftCards d)" "gc_id g = i"
    using find_gc_id by fastforce+
  with assms have "i < nextId d"
    by (auto simp: ledgerInvariant_def idsDrawn_def)
  with assms Some show ?thesis
    by (simp add: addFunds_def inv_adjust_record)
qed

lemma redeemCard_inv:
  assumes "ledgerInvariant d" "giftCard \<in> set (giftCards d)"
  shows "ledgerInvariant (snd (redeemCard u giftCard amount orderId d))"
proof -
  define d1 where "d1 = (case orderId of None \<Rightarrow> d
     | Some oid \<Rightarrow> d\<lparr>nextId := Suc (nextId d),
          payments := payments d @ [\<lparr>p_id = nextId d, p_amount = amount,
             p_status = PAY_COMPLETED, p_orderId = oid, p_userId = u_id u\<rparr>]\<rparr>)"
  have "ledgerInvariant d1"
    using assms(1) by (rule ledgerInvariant_frame) (auto simp: d1_def split: option.splits)
  moreover have "gc_id giftCard < nextId d1"
    using assms by (auto simp: ledgerInvariant_def idsDrawn_def d1_def split: option.splits)
  ultimately show ?thesis
    by (simp add: redeemCard_def Let_def d1_def [symmetric] inv_adjust_record)
qed

lemma redeemGiftCard_inv:
  assumes "ledgerInvariant d"
  shows "ledgerInvariant (snd (redeemGiftCard clock u code amount orderId d))"
proof (cases "find (\<lambda>g. gc_code g = code \<and> Some (gc_restaurantId g) = u_restaurantId u) (giftCards d)")
  case None
  with assms show ?thesis by (simp add: redeemGiftCard_def)
next
  case (Some g)
  then have "g \<in> set (giftCards d)"
    by (auto simp: find_Some_iff)
  with assms Some show ?thesis
    by (auto simp: redeemGiftCard_def redeemCard_inv split: option.splits)
qed


lemma ledgerSum_fresh:
  assumes "idsDrawn d"
  shows "ledgerSum d (nextId d) = 0"
proof -
  have "filter (\<lambda>t. gt_giftCardId t = nextId d) (giftCardTransactions d) = []"
    using assms by (auto simp: idsDrawn_def filter_empty_conv)
  then show ?thesis
    by (simp add: ledgerSum_def transactionsOf_def)
qed

lemma ledgerSum_issueCard:
  "ledgerSum (issueCard u body rid code d) j =
     ledgerSum d j + (if j = nextId d then gb_initialBalance body else 0)"
  by (simp add: ledgerSum_def transactionsOf_def issueCard_def Let_def signedAmount_def)

lemma issueCard_inv:
  assumes inv: "ledgerInvariant d"
  shows "ledgerInvariant (issueCard u body rid code d)" (is "ledgerInvariant ?d'")
proof -
  from inv have ids: "idsDrawn d" and bal: "balanceIsLedger d"
    by (simp_all add: ledgerInvariant_def)
  have cards: "giftCards ?d' = giftCards d @
      [\<lparr>gc_id = nextId d, gc_code = code, gc_initialBalance = gb_initialBalance body,
        gc_currentBalance = gb_initialBalance body, gc_isActive = True,
        gc_expiryDate = gb_expiryDate body, gc_customerId = gb_customerId body,
        gc_restaurantId = rid\<rparr>]"
    and next': "nextId ?d' = Suc (Suc (nextId d))"
    by (simp_all add: issueCard_def Let_def)
  have "idsDrawn ?d'"
    using ids by (auto simp: idsDrawn_def issueCard_def Let_def less_Suc_eq)
  moreover have "balanceIsLedger ?d'"
    unfolding balanceIsLedger_def
  proof (intro ballI)
    fix g assume "g \<in> set (giftCards ?d')"
    then consider "g \<in> set (giftCards d)"
      | "gc_id g = nextId d" "gc_currentBalance g = gb_initialBalance body"
      by (auto simp: cards)
    then show "gc_currentBalance g = ledgerSum ?d' (gc_id g)"
    proof cases
      case 1
      with ids bal show ?thesis
        by (auto simp: ledgerSum_issueCard idsDrawn_def balanceIsLedger_def)
    next
      case 2
      with ids show ?thesis
        by (simp add: ledgerSum_issueCard ledgerSum_fresh)
    qed
  qed
  ultimately show ?thesis
    by (simp add: ledgerInvariant_def)
qed

lemma createGiftCard_inv:
  assumes "ledgerInvariant d"
  shows "ledgerInvariant (snd (createGiftCard u body generated d))"
  using assms
  by (simp add: createGiftCard_def issueCard_inv Let_def split: option.splits)

lemma ledgerInvariant_step:
  assumes inv: "ledgerInvariant d"
    and nxt: "nextId d \<le> nextId d'"
    and cards: "\<And>g. g \<in> set (giftCards d') \<Longrightarrow>
       \<exists>x \<in> set (giftCards d). gc_id g = gc_id x \<and>
          gc_currentBalance g = gc_currentBalance x + (if gc_id x = i then delta else 0)"
    and txs: "\<And>t. t \<in> set (giftCardTransactions d') \<Longrightarrow>
       t \<in> set (giftCardTransactions d) \<or> gt_giftCardId t = i"
    and sum: "\<And>j. ledgerSum d' j = ledgerSum d j + (if j = i then delta else 0)"
    and i: "i < nextId d"
  shows "ledgerInvariant d'"
proof -
  have "idsDrawn d'"
    unfolding idsDrawn_def
  proof (intro conjI ballI)
    fix g assume "g \<in> set (giftCards d')"
    with cards obtain x where "x \<in> set (giftCards d)" "gc_id g = gc_id x"
      by blast
    with inv nxt show "gc_id g < nextId d'"
      by (auto simp: ledgerInvariant_def idsDrawn_def)
  next
    fix t assume "t \<in> set (giftCardTransactions d')"
    with txs have "t \<in> set (giftCardTransactions d) \<or> gt_giftCardId t = i"
      by blast
    with inv i nxt show "gt_giftCardId t < nextId d'"
      by (auto simp: ledgerInvariant_def idsDrawn_def)
  qed
  moreover have "balanceIsLedger d'"
    unfolding balanceIsLedger_def
  proof (intro ballI)
    fix g assume "g \<in> set (giftCards d')"
    with cards obtain x where x: "x \<in> set (giftCards d)" "gc_id g = gc_id x"
      "gc_currentBalance g = gc_currentBalance x + (if gc_id x = i then delta else 0)"
      by blast
    from inv x have "gc_currentBalance x = ledgerSum d (gc_id x)"
      by (simp add: ledgerInvariant_def balanceIsLedger_def)
    with x show "gc_currentBalance g = ledgerSum d' (gc_id g)"
      by (simp add: sum)
  qed
  ultimately show ?thesis
    by (simp add: ledgerInvariant_def)
qed

lemma updateGiftCardStatus_inv:
  assumes inv: "ledgerInvariant d"
  shows "ledgerInvariant (snd (updateGiftCardStatus u i a d))"
proof (cases "find (\<lambda>g. gc_id g = i) (giftCards d)")
  case None
  with inv show ?thesis by (simp add: updateGiftCardStatus_def split: option.splits)
next
  case (Some g)
  then have "g \<in> set (giftCards d)" "gc_id g = i"
    using find_gc_id by fastforce+
  with inv have i: "i < nextId d"
    by (auto simp: ledgerInvariant_def idsDrawn_def)
  show ?thesis
  proof (cases a)
    case None
    with inv show ?thesis by (simp add: updateGiftCardStatus_def)
  next
    case (Some b)
    define d1 where
      "d1 = d\<lparr>giftCards := map (\<lambda>g. if gc_id g = i then g\<lparr>gc_isActive := b\<rparr> else g)
                              (giftCards d)\<rparr>"
    have d1: "ledgerInvariant d1"
      using inv
    proof (rule ledgerInvariant_step [where i = i and delta = 0])
      show "i < nextId d" by (rule i)
    qed (auto simp: d1_def ledgerSum_def transactionsOf_def)
    have d2: "ledgerInvariant (recordTransaction u i ISSUE 0 None d1)"
      using d1
    proof (rule ledgerInvariant_step [where i = i and delta = 0])
      show "i < nextId d1" using i by (simp add: d1_def)
    qed (auto simp: recordTransaction_def ledgerSum_def transactionsOf_def signedAmount_def)
    have "ledgerInvariant (snd (updateGiftCardStatus u i (Some b) d))"
      using inv d1 d2 \<open>find (\<lambda>g. gc_id g = i) (giftCards d) = Some g\<close>
      by (simp add: updateGiftCardStatus_def Let_def d1_def)
    with Some show ?thesis by simp
  qed
qed

lemma ledgerInvariant_initial:
  "giftCards d = [] \<Longrightarrow> giftCardTransactions d = [] \<Longrightarrow> ledgerInvariant d"
  by (simp add: ledgerInvariant_def idsDrawn_def balanceIsLedger_def)

text \<open>
  Claim C7 as stated fails on the code: \<^verbatim>\<open>createGiftCard\<close> sets the balance to the
  initial balance and also writes an \<^verbatim>\<open>ISSUE\<close> row of that amount, so the initial
  balance plus the signed sum of all rows counts it twice. After issuing a card of 50 the
  balance is 50 and the claimed sum is 100.
\<close>

theorem createGiftCard_claimed_balance_counterexample:
  "fst (createGiftCard exManager exGiftCardBody ''A1B2-C3D4-E5F6'' exStore) = Success 201 \<and>
   gc_currentBalance (hd (giftCards exCardStore)) = 50 \<and>
   gc_initialBalance (hd (giftCards exCardStore))
     + ledgerSum exCardStore (gc_id (hd (giftCards exCardStore))) = 100"
  by (simp add: example_defs exGiftCardBody_def exCardStore_def giftCard_defs Let_def)

text \<open>
  Claim C7, amended. In a store whose rows refer to identifiers drawn from its counter,
  the balance of every gift card is the signed sum of the card's ledger rows
  (\<^verbatim>\<open>ISSUE\<close>, \<^verbatim>\<open>LOAD\<close> and \<^verbatim>\<open>REFUND\<close> positive, \<^verbatim>\<open>REDEEM\<close> negative), the
  \<^verbatim>\<open>ISSUE\<close> row carrying the initial balance; \<^verbatim>\<open>createGiftCard\<close>,
  \<^verbatim>\<open>redeemGiftCard\<close>, \<^verbatim>\<open>addFunds\<close> and \<^verbatim>\<open>updateGiftCardStatus\<close> keep it so,
  whatever they answer. A store without gift cards satisfies it
  (\<open>ledgerInvariant_initial\<close>).
\<close>

theorem giftCard_balance_is_ledger:
  assumes "ledgerInvariant d"
  shows "ledgerInvariant (snd (createGiftCard u body generated d)) \<and>
         ledgerInvariant (snd (redeemGiftCard clock u1 code amount orderId d)) \<and>
         ledgerInvariant (snd (addFunds u2 i amount2 d)) \<and>
         ledgerInvariant (snd (updateGiftCardStatus u3 i3 a d))"
  using assms
  by (simp add: createGiftCard_inv redeemGiftCard_inv addFunds_inv updateGiftCardStatus_inv)

text \<open>
  The witness: the example store has no gift card; a card of 50 is issued and 20 are
  redeemed, and the balance and the ledger both stand at 30.
\<close>

theorem giftCard_balance_is_ledger_witness:
  "ledgerInvariant exStore \<and> ledgerInvariant exCardStore \<and>
   ledgerInvariant (snd (redeemGiftCard 0 exServer ''A1B2-C3D4-E5F6'' 20 None exCardStore)) \<and>
   gc_currentBalance (hd (giftCards
      (snd (redeemGiftCard 0 exServer ''A1B2-C3D4-E5F6'' 20 None exCardStore)))) = 30 \<and>
   ledgerSum (snd (redeemGiftCard 0 exServer ''A1B2-C3D4-E5F6'' 20 None exCardStore)) 100 = 30"
proof -
  let ?d = "snd (redeemGiftCard 0 exServer ''A1B2-C3D4-E5F6'' 20 None exCardStore)"
  have a: "ledgerInvariant exStore"
    by (rule ledgerInvariant_initial) (simp_all add: exStore_def)
  have b: "ledgerInvariant exCardStore"
    using giftCard_balance_is_ledger [OF a, of exManager exGiftCardBody "''A1B2-C3D4-E5F6''"]
    by (simp add: exCardStore_def)
  have c: "ledgerInvariant ?d"
    using giftCard_balance_is_ledger [OF b] by simp
  have e: "gc_currentBalance (hd (giftCards ?d)) = 30" "ledgerSum ?d 100 = 30"
    by (simp_all add: example_defs exGiftCardBody_def exCardStore_def giftCard_defs Let_def)
  from a b c e show ?thesis by simp
qed

section \<open>Properties of the orders\<close>

lemmas order_defs =
  createOrder_def checkCustomer_def priceAndStore_def orderItemsInvalid_def fitsInt_def
  resolveRestaurantId_def occupyTable_def uniqueViolation_def findOrder_def
  findRestaurant_def updateOrder_def orderItemsOf_def notAuthorized_def

lemmas order_example_defs =
  exServer_def exMenuStore_def exItem_def exBody_def

lemmas status_defs =
  updateOrderStatus_def orderStatusOf_def isActive_def activeOrders_def releaseTable_def


lemma find_append:
  "find P (xs @ ys) = (case find P xs of None \<Rightarrow> find P ys | Some x \<Rightarrow> Some x)"
  by (induction xs) auto

lemma findModifier_concat: "findModifier gs mid = find (\<lambda>x. m_id x = mid) (concat gs)"
  by (induction gs) (auto simp: find_append split: option.splits)

lemma validateModifiers_rows:
  "validateModifiers gs mids p acc = Inr (p', acc') \<Longrightarrow>
   acc' = acc @ map (\<lambda>mid. \<lparr>oim_modifierId = mid,
              oim_price = (case find (\<lambda>x. m_id x = mid) (concat gs) of
                             None \<Rightarrow> 0 | Some x \<Rightarrow> m_price x)\<rparr>) mids \<and>
   p' = p + sum_list (map (\<lambda>mid. case find (\<lambda>x. m_id x = mid) (concat gs) of
                             None \<Rightarrow> 0 | Some x \<Rightarrow> m_price x) mids)"
proof (induction mids arbitrary: p acc)
  case Nil
  then show ?case by simp
next
  case (Cons mid mids)
  from Cons.prems obtain m where
    m: "find (\<lambda>x. m_id x = mid) (concat gs) = Some m"
    and rest: "validateModifiers gs mids (p + m_price m)
          (acc @ [\<lparr>oim_modifierId = mid, oim_price = m_price m\<rparr>]) = Inr (p', acc')"
    by (cases "findModifier gs mid") (auto simp: findModifier_concat split: if_splits)
  from Cons.IH [OF rest] m show ?case
    by simp
qed

lemma validateItems_rows:
  "validateItems d rid items s acc = Inr (s', acc') \<Longrightarrow>
   acc' = acc @ map (\<lambda>item. \<lparr>vi_menuItemId = in_menuItemId item,
              vi_quantity = in_quantity item,
              vi_price = catalogPrice d (in_menuItemId item),
              vi_modifiers = selectedModifiers d item\<rparr>) items \<and>
   s' = s + sum_list (map (requestedLineTotal d) items)"
proof (induction items arbitrary: s acc)
  case Nil
  then show ?case by simp
next
  case (Cons item items)
  from Cons.prems obtain menuItem where
    mi: "find (\<lambda>m. mi_id m = in_menuItemId item) (menuItems d) = Some menuItem"
    by (cases "find (\<lambda>m. mi_id m = in_menuItemId item) (menuItems d)") auto
  with Cons.prems have ok: "mi_restaurantId menuItem = rid" "mi_available menuItem"
    by (auto split: if_splits)
  with Cons.prems mi obtain modifiersPrice validatedModifiers where
    mods: "validateModifiers (mi_modifierGroups menuItem) (in_modifierIds item) 0 []
             = Inr (modifiersPrice, validatedModifiers)"
    by (cases "validateModifiers (mi_modifierGroups menuItem) (in_modifierIds item) 0 []") auto
  with Cons.prems mi ok have
    rest: "validateItems d rid items
        (s + (mi_price menuItem + modifiersPrice) * of_int (in_quantity item))
        (acc @ [\<lparr>vi_menuItemId = in_menuItemId item, vi_quantity = in_quantity item,
                 vi_price = mi_price menuItem, vi_modifiers = validatedModifiers\<rparr>])
       = Inr (s', acc')"
    by simp
  from mi have mpo: "modifierPriceOf d (in_menuItemId item)
      = (\<lambda>mid. case find (\<lambda>x. m_id x = mid) (concat (mi_modifierGroups menuItem)) of
                 None \<Rightarrow> 0 | Some x \<Rightarrow> m_price x)"
    by (simp add: modifierPriceOf_def fun_eq_iff)
  from validateModifiers_rows [OF mods] have
    vm: "validatedModifiers = selectedModifiers d item"
    and mp: "modifiersPrice
       = sum_list (map (modifierPriceOf d (in_menuItemId item)) (in_modifierIds item))"
    by (simp_all add: selectedModifiers_def mpo)
  from mi have cp: "mi_price menuItem = catalogPrice d (in_menuItemId item)"
    by (simp add: catalogPrice_def)
  have line: "(catalogPrice d (in_menuItemId item) + modifiersPrice) * of_int (in_quantity item)
      = requestedLineTotal d item"
    by (simp add: requestedLineTotal_def mp)
  from Cons.IH [OF rest] show ?case
    by (simp add: vm cp line)
qed

lemma storeModifiers_ok:
  "storeModifiers ms stored = (True, r) \<Longrightarrow> r = stored @ ms"
proof (induction ms arbitrary: stored)
  case Nil
  then show ?case by simp
next
  case (Cons m ms)
  then have "storeModifiers ms (stored @ [m]) = (True, r)"
    by (simp split: if_splits)
  from Cons.IH [OF this] show ?case by simp
qed

lemma createOrderItems_rows:
  "createOrderItems oid vs d = (None, d') \<Longrightarrow>
   orders d' = orders d \<and>
   (\<exists>new. orderItems d' = orderItems d @ new \<and>
      map oi_menuItemId new = map vi_menuItemId vs \<and>
      map oi_quantity new = map vi_quantity vs \<and>
      map oi_price new = map vi_price vs \<and>
      map oi_modifiers new = map vi_modifiers vs \<and>
      (\<forall>it \<in> set new. oi_orderId it = oid))"
proof (induction vs arbitrary: d)
  case Nil
  then show ?case by simp
next
  case (Cons v vs)
  obtain ok mods where sm: "storeModifiers (vi_modifiers v) [] = (ok, mods)"
    by (cases "storeModifiers (vi_modifiers v) []")
  define row where "row = \<lparr>oi_id = nextId d, oi_orderId = oid,
      oi_menuItemId = vi_menuItemId v, oi_quantity = vi_quantity v, oi_price = vi_price v,
      oi_status = ITEM_PENDING, oi_modifiers = mods\<rparr>"
  define d1 where "d1 = d\<lparr>nextId := Suc (nextId d), orderItems := orderItems d @ [row]\<rparr>"
  from Cons.prems sm have ok: "ok" and rest: "createOrderItems oid vs d1 = (None, d')"
    by (auto simp: Let_def d1_def row_def split: if_splits)
  from sm ok have mods: "mods = vi_modifiers v"
    using storeModifiers_ok by fastforce
  from Cons.IH [OF rest] obtain new where
    new: "orders d' = orders d1" "orderItems d' = orderItems d1 @ new"
      "map oi_menuItemId new = map vi_menuItemId vs"
      "map oi_quantity new = map vi_quantity vs"
      "map oi_price new = map vi_price vs"
      "map oi_modifiers new = map vi_modifiers vs"
      "\<forall>it \<in> set new. oi_orderId it = oid"
    by auto
  then show ?case
    by (intro conjI exI [of _ "row # new"]) (simp_all add: d1_def row_def mods)
qed

lemma lineTotal_rows:
  assumes "map oi_quantity rows = map in_quantity items"
    and "map oi_price rows = map (\<lambda>item. catalogPrice d (in_menuItemId item)) items"
    and "map oi_modifiers rows = map (selectedModifiers d) items"
  shows "map lineTotal rows = map (requestedLineTotal d) items"
  using assms
proof (induction rows arbitrary: items)
  case Nil
  then show ?case by simp
next
  case (Cons r rows)
  then obtain item rest where items: "items = item # rest"
    by (cases items) auto
  with Cons.prems have "lineTotal r = requestedLineTotal d item"
    by (simp add: lineTotal_def requestedLineTotal_def selectedModifiers_def comp_def)
  moreover from Cons.prems items have "map lineTotal rows = map (requestedLineTotal d) rest"
    by (intro Cons.IH) simp_all
  ultimately show ?case
    using items by simp
qed


lemma validateModifiers_Inl:
  "validateModifiers gs mids p acc = Inl e \<Longrightarrow> \<exists>c m. e = Fail c m"
  by (induction mids arbitrary: p acc) (auto split: option.splits if_splits)

lemma validateItems_Inl:
  "validateItems d rid items s acc = Inl e \<Longrightarrow> \<exists>c m. e = Fail c m"
proof (induction items arbitrary: s acc)
  case Nil
  then show ?case by simp
next
  case (Cons item items)
  then show ?case
    by (auto split: option.splits if_splits sum.splits dest: validateModifiers_Inl)
qed

lemma priceAndStore_totals:
  assumes ok: "priceAndStore u body rest d = (Success 201, d')"
    and fresh: "\<forall>it \<in> set (orderItems d). oi_orderId it \<noteq> nextId d"
  shows "\<exists>ord. orders d' = orders d @ [ord] \<and> o_id ord = nextId d \<and>
           o_restaurantId ord = rs_id rest \<and> o_status ord = PENDING \<and> o_tip ord = None \<and>
           map oi_menuItemId (orderItemsOf d' (nextId d))
             = map in_menuItemId (b_orderItems body) \<and>
           map oi_quantity (orderItemsOf d' (nextId d))
             = map in_quantity (b_orderItems body) \<and>
           map oi_price (orderItemsOf d' (nextId d))
             = map (\<lambda>item. catalogPrice d (in_menuItemId item)) (b_orderItems body) \<and>
           map oi_modifiers (orderItemsOf d' (nextId d))
             = map (selectedModifiers d) (b_orderItems body) \<and>
           o_subtotal ord = sum_list (map (requestedLineTotal d) (b_orderItems body)) \<and>
           o_tax ord = o_subtotal ord * (rs_taxRate rest / 100) \<and>
           o_total ord = o_subtotal ord + o_tax ord"
proof -
  from ok obtain subtotal validatedItems where
    vi: "validateItems d (rs_id rest) (b_orderItems body) 0 [] = Inr (subtotal, validatedItems)"
    by (cases "validateItems d (rs_id rest) (b_orderItems body) 0 []")
       (auto simp: priceAndStore_def split: if_splits dest: validateItems_Inl)
  define ord where "ord = \<lparr>o_id = nextId d, o_status = PENDING,
      o_type = (case b_type body of None \<Rightarrow> DINE_IN | Some t \<Rightarrow> t),
      o_completedAt = None, o_subtotal = subtotal,
      o_tax = subtotal * (rs_taxRate rest / 100),
      o_tip = None, o_total = subtotal + subtotal * (rs_taxRate rest / 100),
      o_tableId = b_tableId body, o_userId = u_id u, o_customerId = b_customerId body,
      o_restaurantId = rs_id rest\<rparr>"
  define d1 where "d1 = d\<lparr>nextId := Suc (nextId d), orders := orders d @ [ord]\<rparr>"
  obtain raised d2 where c: "createOrderItems (nextId d) validatedItems d1 = (raised, d2)"
    by (cases "createOrderItems (nextId d) validatedItems d1")
  with ok vi have res: "(case raised of None \<Rightarrow> (Success 201, d2) | Some e \<Rightarrow> (e, d2))
      = (Success 201, d')"
    by (simp add: priceAndStore_def Let_def d1_def ord_def split: if_splits)
  have none: "raised = None"
  proof (cases raised)
    case None
    then show ?thesis .
  next
    case (Some e)
    with c have "e = Fail 500 ''Server Error'' \<or> e = uniqueViolation"
    proof (induction validatedItems arbitrary: d1)
      case Nil
      then show ?case by simp
    next
      case (Cons v vs)
      then show ?case
        by (auto simp: Let_def split: if_splits prod.splits)
    qed
    with res Some show ?thesis
      by (auto simp: uniqueViolation_def)
  qed
  with res c have stored: "createOrderItems (nextId d) validatedItems d1 = (None, d')"
    by simp
  from validateItems_rows [OF vi] have
    rows: "validatedItems = map (\<lambda>item. \<lparr>vi_menuItemId = in_menuItemId item,
              vi_quantity = in_quantity item,
              vi_price = catalogPrice d (in_menuItemId item),
              vi_modifiers = selectedModifiers d item\<rparr>) (b_orderItems body)"
    and sub: "subtotal = sum_list (map (requestedLineTotal d) (b_orderItems body))"
    by simp_all
  from createOrderItems_rows [OF stored] obtain new where
    new: "orders d' = orders d1" "orderItems d' = orderItems d1 @ new"
      "map oi_menuItemId new = map vi_menuItemId validatedItems"
      "map oi_quantity new = map vi_quantity validatedItems"
      "map oi_price new = map vi_price validatedItems"
      "map oi_modifiers new = map vi_modifiers validatedItems"
      "\<forall>it \<in> set new. oi_orderId it = nextId d"
    by auto
  from fresh new(2,7) have items: "orderItemsOf d' (nextId d) = new"
    by (auto simp: orderItemsOf_def d1_def filter_empty_conv)
  have "orders d' = orders d @ [ord]"
    by (simp add: new(1) d1_def)
  moreover have "map oi_menuItemId new = map in_menuItemId (b_orderItems body)"
    "map oi_quantity new = map in_quantity (b_orderItems body)"
    "map oi_price new = map (\<lambda>item. catalogPrice d (in_menuItemId item)) (b_orderItems body)"
    "map oi_modifiers new = map (selectedModifiers d) (b_orderItems body)"
    by (simp_all add: new rows comp_def)
  ultimately show ?thesis
    by (intro exI [of _ ord]) (simp add: ord_def items sub)
qed

lemma createOrder_reaches_priceAndStore:
  assumes "createOrder u body d = (Success 201, d')"
  shows "\<exists>rest d0. resolveRestaurantId u (b_restaurantId body) = Some (rs_id rest) \<and>
           findRestaurant d (rs_id rest) = Some rest \<and> orders d0 = orders d \<and>
           orderItems d0 = orderItems d \<and> nextId d0 = nextId d \<and>
           menuItems d0 = menuItems d \<and>
           priceAndStore u body rest d0 = (Success 201, d')"
proof -
  from assms obtain rid rest where
    r: "resolveRestaurantId u (b_restaurantId body) = Some rid"
       "findRestaurant d rid = Some rest"
    by (auto simp: createOrder_def split: option.splits)
  then have rid: "rs_id rest = rid"
    by (auto simp: findRestaurant_def find_Some_iff)
  from assms r consider "priceAndStore u body rest d = (Success 201, d')"
    | tid where "priceAndStore u body rest (occupyTable tid d) = (Success 201, d')"
    by (auto simp: createOrder_def checkCustomer_def split: option.splits if_splits)
  then show ?thesis
  proof cases
    case 1
    with r rid show ?thesis
      by (intro exI [of _ rest] exI [of _ d]) simp
  next
    case 2
    with r rid show ?thesis
      by (intro exI [of _ rest] exI [of _ "occupyTable tid d"]) (simp add: occupyTable_def)
  qed
qed

lemma catalogue_frame:
  assumes "menuItems d0 = menuItems d"
  shows "catalogPrice d0 = catalogPrice d" "selectedModifiers d0 = selectedModifiers d"
    "requestedLineTotal d0 = requestedLineTotal d"
proof -
  from assms have m: "modifierPriceOf d0 = modifierPriceOf d"
    by (simp add: fun_eq_iff modifierPriceOf_def)
  from assms show c: "catalogPrice d0 = catalogPrice d"
    by (simp add: fun_eq_iff catalogPrice_def)
  show "selectedModifiers d0 = selectedModifiers d"
    by (rule ext) (simp add: selectedModifiers_def m)
  show "requestedLineTotal d0 = requestedLineTotal d"
    by (rule ext) (simp add: requestedLineTotal_def m c)
qed

text \<open>
  Claim C4 as stated fails on the code: \<^verbatim>\<open>createOrder\<close> rounds nothing. One item of
  1.01 at a tax rate of 8 is stored with tax 0.0808 and total 1.0908; rounded to two
  decimals the tax would be 0.08.
\<close>

theorem createOrder_tax_not_rounded_counterexample:
  "fst (createOrder exServer (exBody [exItem 3 1]) exMenuStore) = Success 201 \<and>
   o_subtotal (hd (orders (snd (createOrder exServer (exBody [exItem 3 1]) exMenuStore))))
     = 101 / 100 \<and>
   o_tax (hd (orders (snd (createOrder exServer (exBody [exItem 3 1]) exMenuStore))))
     = 808 / 10000 \<and>
   o_total (hd (orders (snd (createOrder exServer (exBody [exItem 3 1]) exMenuStore))))
     = 10908 / 10000 \<and>
   round2 (808 / 10000) = 8 / 100"
  by (simp add: order_example_defs order_defs Let_def round2_def)


text \<open>
  Claim C4, amended. For every input \<^verbatim>\<open>createOrder\<close> accepts, in a store whose
  item rows do not yet refer to the identifier the new order gets: the item rows of the
  new order carry, one per request item and in the request's order, the requested menu
  item and quantity, the catalogue price of the menu item and the selected modifiers at
  their catalogue prices; the line total of each row is (unit price + modifier prices)
  times quantity; the subtotal is the sum of the line totals; the tax is the subtotal
  times the restaurant's tax rate over 100; the total is subtotal plus tax. None of
  the three is rounded.
\<close>

theorem createOrder_totals:
  assumes "createOrder u body d = (Success 201, d')"
    and "\<forall>it \<in> set (orderItems d). oi_orderId it \<noteq> nextId d"
  shows "\<exists>ord rest. orders d' = orders d @ [ord] \<and> o_id ord = nextId d \<and>
           resolveRestaurantId u (b_restaurantId body) = Some (o_restaurantId ord) \<and>
           findRestaurant d (o_restaurantId ord) = Some rest \<and>
           map oi_menuItemId (orderItemsOf d' (o_id ord))
             = map in_menuItemId (b_orderItems body) \<and>
           map oi_quantity (orderItemsOf d' (o_id ord))
             = map in_quantity (b_orderItems body) \<and>
           map oi_price (orderItemsOf d' (o_id ord))
             = map (\<lambda>item. catalogPrice d (in_menuItemId item)) (b_orderItems body) \<and>
           map oi_modifiers (orderItemsOf d' (o_id ord))
             = map (selectedModifiers d) (b_orderItems body) \<and>
           map lineTotal (orderItemsOf d' (o_id ord))
             = map (requestedLineTotal d) (b_orderItems body) \<and>
           o_subtotal ord = sum_list (map (requestedLineTotal d) (b_orderItems body)) \<and>
           o_tax ord = o_subtotal ord * (rs_taxRate rest / 100) \<and>
           o_total ord = o_subtotal ord + o_tax ord"
proof -
  from createOrder_reaches_priceAndStore [OF assms(1)] obtain rest d0 where
    r: "resolveRestaurantId u (b_restaurantId body) = Some (rs_id rest)"
       "findRestaurant d (rs_id rest) = Some rest" "orders d0 = orders d"
       "orderItems d0 = orderItems d" "nextId d0 = nextId d" "menuItems d0 = menuItems d"
       "priceAndStore u body rest d0 = (Success 201, d')"
    by blast
  from assms(2) r have "\<forall>it \<in> set (orderItems d0). oi_orderId it \<noteq> nextId d0"
    by simp
  from priceAndStore_totals [OF r(7) this] obtain ord where
    o: "orders d' = orders d0 @ [ord]" "o_id ord = nextId d0" "o_restaurantId ord = rs_id rest"
    "map oi_menuItemId (orderItemsOf d' (nextId d0)) = map in_menuItemId (b_orderItems body)"
    "map oi_quantity (orderItemsOf d' (nextId d0)) = map in_quantity (b_orderItems body)"
    "map oi_price (orderItemsOf d' (nextId d0))
       = map (\<lambda>item. catalogPrice d0 (in_menuItemId item)) (b_orderItems body)"
    "map oi_modifiers (orderItemsOf d' (nextId d0))
       = map (selectedModifiers d0) (b_orderItems body)"
    "o_subtotal ord = sum_list (map (requestedLineTotal d0) (b_orderItems body))"
    "o_tax ord = o_subtotal ord * (rs_taxRate rest / 100)"
    "o_total ord = o_subtotal ord + o_tax ord"
    by blast
  note frame = catalogue_frame [OF r(6)]
  from o(5,6,7) have "map lineTotal (orderItemsOf d' (nextId d0))
      = map (requestedLineTotal d) (b_orderItems body)"
    unfolding frame by (rule lineTotal_rows)
  with o r show ?thesis
    by (intro exI [of _ ord] exI [of _ rest]) (simp add: frame)
qed


text \<open>
  The witness is the scenario of the specification: items of 10.00 and 5.00, two of each,
  tax rate 8, give line totals 20 and 10, subtotal 30, tax 2.40 and total 32.40. A second
  order, two of the item of 1.01 with its modifier of 0.50, stores the modifier row and
  the subtotal 3.02.
\<close>

theorem createOrder_totals_witness:
  "createOrder exServer (exBody [exItem 1 2, exItem 2 2]) exMenuStore
     = (Success 201, exOrderStore) \<and>
   map (requestedLineTotal exMenuStore) [exItem 1 2, exItem 2 2] = [20, 10] \<and>
   map oi_quantity (orderItemsOf exOrderStore 100) = [2, 2] \<and>
   o_subtotal (last (orders exOrderStore)) = 30 \<and>
   o_tax (last (orders exOrderStore)) = 24 / 10 \<and>
   o_total (last (orders exOrderStore)) = 324 / 10 \<and>
   fst (createOrder exServer exModifierBody exMenuStore) = Success 201 \<and>
   map oi_modifiers (orderItemsOf (snd (createOrder exServer exModifierBody exMenuStore)) 100)
     = [[\<lparr>oim_modifierId = 30, oim_price = 1 / 2\<rparr>]] \<and>
   o_subtotal (last (orders (snd (createOrder exServer exModifierBody exMenuStore))))
     = 302 / 100"
proof -
  have fresh: "\<forall>it \<in> set (orderItems exMenuStore). oi_orderId it \<noteq> nextId exMenuStore"
    by (simp add: exMenuStore_def)
  have nxt: "nextId exMenuStore = 100"
    by (simp add: exMenuStore_def)
  have rate: "rs_taxRate rest = 8" if "findRestaurant exMenuStore i = Some rest" for i rest
    using that by (auto simp: findRestaurant_def exMenuStore_def split: if_splits)
  have "fst (createOrder exServer (exBody [exItem 1 2, exItem 2 2]) exMenuStore) = Success 201"
    by (simp add: order_example_defs order_defs Let_def)
  then have a: "createOrder exServer (exBody [exItem 1 2, exItem 2 2]) exMenuStore
      = (Success 201, exOrderStore)"
    by (simp add: exOrderStore_def prod_eq_iff)
  have lines: "map (requestedLineTotal exMenuStore) [exItem 1 2, exItem 2 2] = [20, 10]"
    by (simp add: exMenuStore_def exItem_def requestedLineTotal_def catalogPrice_def)
  from createOrder_totals [OF a fresh] obtain ord rest where
    t: "orders exOrderStore = orders exMenuStore @ [ord]" "o_id ord = nextId exMenuStore"
       "findRestaurant exMenuStore (o_restaurantId ord) = Some rest"
       "map oi_quantity (orderItemsOf exOrderStore (o_id ord))
          = map in_quantity (b_orderItems (exBody [exItem 1 2, exItem 2 2]))"
       "o_subtotal ord = sum_list (map (requestedLineTotal exMenuStore)
          (b_orderItems (exBody [exItem 1 2, exItem 2 2])))"
       "o_tax ord = o_subtotal ord * (rs_taxRate rest / 100)"
       "o_total ord = o_subtotal ord + o_tax ord"
    by blast
  from t(5) lines have s1: "o_subtotal ord = 30"
    by (simp add: exBody_def)
  with t(6,7) rate [OF t(3)] have s2: "o_tax ord = 24 / 10" "o_total ord = 324 / 10"
    by simp_all
  from t(4) have q: "map oi_quantity (orderItemsOf exOrderStore 100) = [2, 2]"
    by (simp add: t(2) nxt exBody_def exItem_def)
  have "fst (createOrder exServer exModifierBody exMenuStore) = Success 201"
    by (simp add: order_example_defs exModifierBody_def order_defs Let_def)
  then have b: "createOrder exServer exModifierBody exMenuStore
      = (Success 201, snd (createOrder exServer exModifierBody exMenuStore))"
    by (simp add: prod_eq_iff)
  have line3: "map (requestedLineTotal exMenuStore) (b_orderItems exModifierBody) = [302 / 100]"
    "map (selectedModifiers exMenuStore) (b_orderItems exModifierBody)
       = [[\<lparr>oim_modifierId = 30, oim_price = 1 / 2\<rparr>]]"
    by (simp_all add: exMenuStore_def exModifierBody_def exBody_def requestedLineTotal_def
          catalogPrice_def modifierPriceOf_def selectedModifiers_def)
  from createOrder_totals [OF b fresh] obtain ord3 where
    m: "orders (snd (createOrder exServer exModifierBody exMenuStore))
          = orders exMenuStore @ [ord3]"
       "o_id ord3 = nextId exMenuStore"
       "map oi_modifiers (orderItemsOf (snd (createOrder exServer exModifierBody exMenuStore))
            (o_id ord3))
          = map (selectedModifiers exMenuStore) (b_orderItems exModifierBody)"
       "o_subtotal ord3
          = sum_list (map (requestedLineTotal exMenuStore) (b_orderItems exModifierBody))"
    by blast
  from m line3 nxt have
    "map oi_modifiers (orderItemsOf (snd (createOrder exServer exModifierBody exMenuStore)) 100)
       = [[\<lparr>oim_modifierId = 30, oim_price = 1 / 2\<rparr>]]"
    "o_subtotal ord3 = 302 / 100"
    by simp_all
  with a lines q t(1) s1 s2 m(1) \<open>fst (createOrder exServer exModifierBody exMenuStore) = Success 201\<close>
  show ?thesis
    by simp
qed

text \<open>
  Claim C1, evaluated on the code. The claim: no status update moves an order out of
  \<^verbatim>\<open>COMPLETED\<close> or \<^verbatim>\<open>CANCELLED\<close>; such a request fails. On the completed scenario
  order \<^verbatim>\<open>updateOrderStatus\<close> answers 200 to the request for \<^verbatim>\<open>PENDING\<close> and the
  order is pending again; it also accepts \<^verbatim>\<open>CANCELLED\<close>, which \<^verbatim>\<open>cancelOrder\<close>
  refuses for the same order.
\<close>

theorem updateOrderStatus_reopens_completed_order:
  "map o_status (orders exCompletedStore) = [COMPLETED] \<and>
   fst (updateOrderStatus 5 exServer 100 ''PENDING'' exCompletedStore) = Success 200 \<and>
   map o_status (orders (snd (updateOrderStatus 5 exServer 100 ''PENDING'' exCompletedStore)))
     = [PENDING] \<and>
   fst (updateOrderStatus 5 exServer 100 ''CANCELLED'' exCompletedStore) = Success 200 \<and>
   fst (cancelOrder 5 exManager 100 exCompletedStore)
     = Fail 400 ''Cannot cancel an order with this status''"
  by (simp add: order_example_defs exManager_def exOrderStore_def exCompletedStore_def
        order_defs status_defs cancelOrder_def Let_def)


text \<open>
  Claim C6, evaluated on the code. The claim: every operation that changes the status of
  an item re-derives the status of the order. \<^verbatim>\<open>updateOrderItem\<close> sets the only item
  of a pending order to \<^verbatim>\<open>READY\<close> and leaves the order pending; the kitchen's
  \<^verbatim>\<open>updateOrderItemStatus\<close> promotes the order on the same request.
\<close>

theorem updateOrderItem_leaves_order_status:
  "fst (updateOrderItem exServer 100 101 None (Some ''READY'') exSingleStore) = Success 200 \<and>
   map oi_status (orderItems
     (snd (updateOrderItem exServer 100 101 None (Some ''READY'') exSingleStore))) = [ITEM_READY] \<and>
   map o_status (orders
     (snd (updateOrderItem exServer 100 101 None (Some ''READY'') exSingleStore))) = [PENDING] \<and>
   map o_status (orders
     (snd (updateOrderItemStatus exKitchen 101 ''READY'' exSingleStore))) = [READY]"
  by (simp add: order_example_defs exKitchen_def exSingleStore_def order_defs
        updateOrderItem_def updateItemRow_def itemStatusOf_def recalculate_def
        quantityRaises_def
        updateOrderItemStatus_def promoteOrder_def allReady_def allServed_def Let_def)


lemma find_updated:
  assumes "find (\<lambda>x. o_id x = i) xs = Some y" and "\<And>x. o_id (f x) = o_id x"
  shows "find (\<lambda>x. o_id x = i) (map (\<lambda>x. if o_id x = i then f x else x) xs) = Some (f y)"
  using assms by (induction xs) (auto split: if_splits)

lemma findOrder_updateOrder:
  assumes "findOrder d i = Some ord" and "\<And>x. o_id (f x) = o_id x"
  shows "findOrder (updateOrder i f d) i = Some (f ord)"
  using assms by (simp add: findOrder_def updateOrder_def find_updated)


text \<open>
  Claim C5 as stated fails on the code: the kitchen handler accepts \<^verbatim>\<open>READY\<close> for a
  pending order, which skips \<^verbatim>\<open>PREPARING\<close>.
\<close>

theorem updateKitchenOrderStatus_skips_preparing_counterexample:
  "map o_status (orders exOrderStore) = [PENDING] \<and>
   fst (updateKitchenOrderStatus exKitchen 100 ''READY'' exOrderStore) = Success 200 \<and>
   map o_status (orders (snd (updateKitchenOrderStatus exKitchen 100 ''READY'' exOrderStore)))
     = [READY]"
  by (simp add: order_example_defs exKitchen_def exOrderStore_def order_defs
        updateKitchenOrderStatus_def cascadeItems_def Let_def)

text \<open>
  Claim C5, amended. For an order the caller may touch, the kitchen advancement to
  \<^verbatim>\<open>PREPARING\<close> or \<^verbatim>\<open>READY\<close> succeeds when the order is \<^verbatim>\<open>PENDING\<close> or
  \<^verbatim>\<open>PREPARING\<close> (either target from either status) and is rejected, the store
  unchanged, from every other status. On success the order takes the new status, the
  order's items in the prior item status take the new one (pending items when advancing
  to \<^verbatim>\<open>PREPARING\<close>, preparing items when advancing to \<^verbatim>\<open>READY\<close>) and every other item
  row is unchanged.
\<close>

theorem updateKitchenOrderStatus_guard_and_cascade:
  assumes "findOrder d i = Some ord" and "\<not> notAuthorized u (o_restaurantId ord)"
  shows
    "(o_status ord \<in> {PENDING, PREPARING} \<longrightarrow>
        fst (updateKitchenOrderStatus u i ''PREPARING'' d) = Success 200 \<and>
        findOrder (snd (updateKitchenOrderStatus u i ''PREPARING'' d)) i
          = Some (ord\<lparr>o_status := PREPARING\<rparr>) \<and>
        orderItems (snd (updateKitchenOrderStatus u i ''PREPARING'' d))
          = map (\<lambda>it. if oi_orderId it = i \<and> oi_status it = ITEM_PENDING
                        then it\<lparr>oi_status := ITEM_PREPARING\<rparr> else it) (orderItems d) \<and>
        fst (updateKitchenOrderStatus u i ''READY'' d) = Success 200 \<and>
        findOrder (snd (updateKitchenOrderStatus u i ''READY'' d)) i
          = Some (ord\<lparr>o_status := READY\<rparr>) \<and>
        orderItems (snd (updateKitchenOrderStatus u i ''READY'' d))
          = map (\<lambda>it. if oi_orderId it = i \<and> oi_status it = ITEM_PREPARING
                        then it\<lparr>oi_status := ITEM_READY\<rparr> else it) (orderItems d)) \<and>
     (o_status ord \<notin> {PENDING, PREPARING} \<longrightarrow>
        fst (updateKitchenOrderStatus u i status d) \<noteq> Success 200 \<and>
        snd (updateKitchenOrderStatus u i status d) = d)"
proof -
  have a: "findOrder (cascadeItems i a b (updateOrder i (\<lambda>x. x\<lparr>o_status := st\<rparr>) d)) i
      = Some (ord\<lparr>o_status := st\<rparr>)" for a b st
    using findOrder_updateOrder [OF assms(1), of "\<lambda>x. x\<lparr>o_status := st\<rparr>"]
    by (simp add: cascadeItems_def findOrder_def)
  have b: "orderItems (cascadeItems i a b (updateOrder i f d))
      = map (\<lambda>it. if oi_orderId it = i \<and> oi_status it = a then it\<lparr>oi_status := b\<rparr> else it)
          (orderItems d)" for a b f
    by (simp add: cascadeItems_def updateOrder_def)
  from assms show ?thesis
    by (simp add: updateKitchenOrderStatus_def a b)
qed

text \<open>
  The witness: the pending scenario order is advanced to \<^verbatim>\<open>PREPARING\<close> with both items;
  the completed one is refused.
\<close>

theorem updateKitchenOrderStatus_guard_and_cascade_witness:
  "fst (updateKitchenOrderStatus exKitchen 100 ''PREPARING'' exOrderStore) = Success 200 \<and>
   map o_status (orders (snd (updateKitchenOrderStatus exKitchen 100 ''PREPARING'' exOrderStore)))
     = [PREPARING] \<and>
   map oi_status (orderItems
      (snd (updateKitchenOrderStatus exKitchen 100 ''PREPARING'' exOrderStore)))
     = [ITEM_PREPARING, ITEM_PREPARING] \<and>
   updateKitchenOrderStatus exKitchen 100 ''READY'' exCompletedStore
     = (Fail 400 ''Cannot change kitchen status for an order with this status'', exCompletedStore)"
proof -
  note defs = order_example_defs exKitchen_def exOrderStore_def exCompletedStore_def
    order_defs status_defs updateKitchenOrderStatus_def cascadeItems_def Let_def
  let ?ord = "hd (orders exOrderStore)"
  let ?done = "hd (orders exCompletedStore)"
  have a: "findOrder exOrderStore 100 = Some ?ord"
    by (simp add: defs)
  have b: "\<not> notAuthorized exKitchen (o_restaurantId ?ord)"
    by (simp add: defs)
  have c: "o_status ?ord \<in> {PENDING, PREPARING}"
    by (simp add: defs)
  have a': "findOrder exCompletedStore 100 = Some ?done"
    by (simp add: defs)
  have b': "\<not> notAuthorized exKitchen (o_restaurantId ?done)"
    by (simp add: defs)
  have c': "o_status ?done \<notin> {PENDING, PREPARING}"
    by (simp add: defs)
  from updateKitchenOrderStatus_guard_and_cascade [OF a b] c
  have ok: "fst (updateKitchenOrderStatus exKitchen 100 ''PREPARING'' exOrderStore) = Success 200"
    by blast
  from updateKitchenOrderStatus_guard_and_cascade [OF a' b', of "''READY''"] c'
  have no: "fst (updateKitchenOrderStatus exKitchen 100 ''READY'' exCompletedStore) \<noteq> Success 200"
      "snd (updateKitchenOrderStatus exKitchen 100 ''READY'' exCompletedStore) = exCompletedStore"
    by blast+
  have e: "map o_status (orders
        (snd (updateKitchenOrderStatus exKitchen 100 ''PREPARING'' exOrderStore))) = [PREPARING]"
     "map oi_status (orderItems
        (snd (updateKitchenOrderStatus exKitchen 100 ''PREPARING'' exOrderStore)))
       = [ITEM_PREPARING, ITEM_PREPARING]"
     "fst (updateKitchenOrderStatus exKitchen 100 ''READY'' exCompletedStore)
       = Fail 400 ''Cannot change kitchen status for an order with this status''"
    by (simp_all add: defs)
  from ok no e show ?thesis
    by (simp add: prod_eq_iff)
qed


text \<open>
  Two facts behind the evaluations of C1 and C6 above. \<^verbatim>\<open>updateOrderStatus\<close> accepts
  each of the six statuses from every current status; \<^verbatim>\<open>updateOrderItem\<close> never
  changes the status of an order.
\<close>

lemma findOrder_releaseTable: "findOrder (releaseTable tid i d) j = findOrder d j"
  by (simp add: releaseTable_def findOrder_def)

lemma updateOrderStatus_any_transition:
  assumes "findOrder d i = Some ord" and "\<not> notAuthorized u (o_restaurantId ord)"
    and "orderStatusOf status = Some st"
  shows "fst (updateOrderStatus clock u i status d) = Success 200 \<and>
         map_option o_status (findOrder (snd (updateOrderStatus clock u i status d)) i) = Some st"
proof -
  have "findOrder (updateOrder i f d') i = Some (f ord)"
    if "findOrder d' i = Some ord" "\<And>x. o_id (f x) = o_id x" for f d'
    using that by (rule findOrder_updateOrder)
  with assms show ?thesis
    by (simp add: updateOrderStatus_def findOrder_releaseTable Let_def split: option.splits)
qed

lemma orders_updateItemRow: "orders (updateItemRow i q s d) = orders d"
  by (simp add: updateItemRow_def)

lemma status_writeTotals:
  "map o_status (orders (writeTotals i s t d)) = map o_status (orders d)"
  by (simp add: writeTotals_def updateOrder_def Let_def comp_def)

lemma updateOrderItem_keeps_order_status:
  "map o_status (orders (snd (updateOrderItem u orderId itemId quantity status d)))
     = map o_status (orders d)"
  by (simp add: updateOrderItem_def recalculate_def Let_def orders_updateItemRow status_writeTotals
        split: option.splits)

text \<open>
  The two rejections that keep an order from losing its last item, and the handlers that keep
  \<^const>\<open>everyOrderHasItem\<close>: \<^verbatim>\<open>addOrderItems\<close> and \<^verbatim>\<open>removeOrderItem\<close> always, \<^verbatim>\<open>createOrder\<close> when
  every requested quantity fits the \<^verbatim>\<open>Int\<close> column of \<^verbatim>\<open>OrderItem.quantity\<close>.
\<close>

lemma removeOrderItem_rejected:
  assumes "length (orderItemsOf d orderId) \<le> 1 \<or>
           (\<exists>ord. findOrder d orderId = Some ord \<and> o_status ord \<noteq> PENDING)"
  shows "fst (removeOrderItem u orderId itemId d) \<noteq> Success 200 \<and>
         snd (removeOrderItem u orderId itemId d) = d"
  using assms by (auto simp: removeOrderItem_def split: option.splits)

lemma createOrder_empty:
  "b_orderItems body = [] \<Longrightarrow>
   createOrder u body d = (Fail 400 ''Order must have at least one item'', d)"
  by (simp add: createOrder_def orderItemsInvalid_def)


lemma createOrderItems_appends:
  "createOrderItems oid vs d = (raised, d') \<Longrightarrow>
   orders d' = orders d \<and>
   (\<exists>new. orderItems d' = orderItems d @ new \<and>
      (vs \<noteq> [] \<longrightarrow> fitsInt (vi_quantity (hd vs)) \<longrightarrow> (\<exists>it \<in> set new. oi_orderId it = oid)))"
proof (induction vs arbitrary: d)
  case Nil
  then show ?case by simp
next
  case (Cons v vs)
  show ?case
  proof (cases "fitsInt (vi_quantity v)")
    case False
    with Cons.prems have "d' = d"
      by simp
    with False show ?thesis
      by simp
  next
    case fits: True
    obtain ok1 mods where sm: "storeModifiers (vi_modifiers v) [] = (ok1, mods)"
      by (cases "storeModifiers (vi_modifiers v) []")
    define row where "row = \<lparr>oi_id = nextId d, oi_orderId = oid,
        oi_menuItemId = vi_menuItemId v, oi_quantity = vi_quantity v, oi_price = vi_price v,
        oi_status = ITEM_PENDING, oi_modifiers = mods\<rparr>"
    define d1 where "d1 = d\<lparr>nextId := Suc (nextId d), orderItems := orderItems d @ [row]\<rparr>"
    show ?thesis
    proof (cases ok1)
      case True
      with Cons.prems sm fits have "createOrderItems oid vs d1 = (raised, d')"
        by (simp add: Let_def d1_def row_def)
      from Cons.IH [OF this] obtain new where
        "orders d' = orders d1" "orderItems d' = orderItems d1 @ new"
        by auto
      then show ?thesis
        by (intro conjI exI [of _ "row # new"]) (simp_all add: d1_def row_def)
    next
      case False
      with Cons.prems sm fits have "d' = d1"
        by (simp add: Let_def d1_def row_def)
      then show ?thesis
        by (intro conjI exI [of _ "[row]"]) (simp_all add: d1_def row_def)
    qed
  qed
qed

lemma everyOrderHasItem_grow:
  assumes inv: "everyOrderHasItem d" and items: "orderItems d' = orderItems d @ new"
    and ids: "map o_id (orders d') = map o_id (orders d)"
  shows "everyOrderHasItem d'"
  unfolding everyOrderHasItem_def
proof
  fix x assume "x \<in> set (orders d')"
  then have "o_id x \<in> set (map o_id (orders d'))"
    by simp
  with ids have "o_id x \<in> set (map o_id (orders d))"
    by simp
  then obtain y where "y \<in> set (orders d)" "o_id y = o_id x"
    by auto
  with inv have "orderItemsOf d (o_id x) \<noteq> []"
    by (metis everyOrderHasItem_def)
  then show "orderItemsOf d' (o_id x) \<noteq> []"
    by (simp add: orderItemsOf_def items)
qed


lemma everyOrderHasItem_new_order:
  assumes inv: "everyOrderHasItem d" and ords: "orders d' = orders d @ [ord]"
    and items: "orderItems d' = orderItems d @ new"
    and one: "\<exists>it \<in> set new. oi_orderId it = o_id ord"
  shows "everyOrderHasItem d'"
  unfolding everyOrderHasItem_def
proof
  fix x assume "x \<in> set (orders d')"
  with ords consider "x \<in> set (orders d)" | "x = ord"
    by auto
  then show "orderItemsOf d' (o_id x) \<noteq> []"
  proof cases
    case 1
    with inv have "orderItemsOf d (o_id x) \<noteq> []"
      by (simp add: everyOrderHasItem_def)
    then show ?thesis
      by (simp add: orderItemsOf_def items)
  next
    case 2
    with one show ?thesis
      by (auto simp: orderItemsOf_def items filter_empty_conv)
  qed
qed


lemma priceAndStore_everyOrderHasItem:
  assumes inv: "everyOrderHasItem d"
    and fits: "\<forall>item \<in> set (b_orderItems body). fitsInt (in_quantity item)"
  shows "everyOrderHasItem (snd (priceAndStore u body rest d))"
proof (cases "b_orderItems body = []")
  case True
  with inv show ?thesis by (simp add: priceAndStore_def)
next
  case False
  show ?thesis
  proof (cases "validateItems d (rs_id rest) (b_orderItems body) 0 []")
    case (Inl e)
    with inv False show ?thesis by (simp add: priceAndStore_def)
  next
    case (Inr r)
    obtain subtotal validatedItems where r: "r = (subtotal, validatedItems)"
      by (cases r)
    from validateItems_rows [of d "rs_id rest" "b_orderItems body" 0 "[]" subtotal validatedItems]
      Inr r
    have "map vi_quantity validatedItems = map in_quantity (b_orderItems body)"
      by (simp add: comp_def)
    with False fits have ne: "validatedItems \<noteq> []" "fitsInt (vi_quantity (hd validatedItems))"
      by (cases validatedItems; cases "b_orderItems body"; simp)+
    define ord where "ord = \<lparr>o_id = nextId d, o_status = PENDING,
      o_type = (case b_type body of None \<Rightarrow> DINE_IN | Some t \<Rightarrow> t),
      o_completedAt = None, o_subtotal = subtotal,
      o_tax = subtotal * (rs_taxRate rest / 100),
      o_tip = None, o_total = subtotal + subtotal * (rs_taxRate rest / 100),
      o_tableId = b_tableId body, o_userId = u_id u, o_customerId = b_customerId body,
      o_restaurantId = rs_id rest\<rparr>"
    define d1 where "d1 = d\<lparr>nextId := Suc (nextId d), orders := orders d @ [ord]\<rparr>"
    obtain raised d2 where c: "createOrderItems (nextId d) validatedItems d1 = (raised, d2)"
      by (cases "createOrderItems (nextId d) validatedItems d1")
    from createOrderItems_appends [OF c] ne obtain new where
      n: "orders d2 = orders d1" "orderItems d2 = orderItems d1 @ new"
      "\<exists>it \<in> set new. oi_orderId it = nextId d"
      by auto
    have "everyOrderHasItem d2"
      using inv
    proof (rule everyOrderHasItem_new_order)
      show "orders d2 = orders d @ [ord]"
        using n by (simp add: d1_def)
      show "orderItems d2 = orderItems d @ new"
        using n by (simp add: d1_def)
      show "\<exists>it \<in> set new. oi_orderId it = o_id ord"
        using n by (simp add: ord_def)
    qed
    moreover from Inr r False c have "snd (priceAndStore u body rest d) = d2"
      by (simp add: priceAndStore_def Let_def d1_def ord_def split: option.splits)
    ultimately show ?thesis by simp
  qed
qed

lemma everyOrderHasItem_occupyTable:
  "everyOrderHasItem d \<Longrightarrow> everyOrderHasItem (occupyTable tid d)"
  by (simp add: everyOrderHasItem_def occupyTable_def orderItemsOf_def)


lemma createOrder_everyOrderHasItem:
  assumes "everyOrderHasItem d"
    and "\<forall>item \<in> set (b_orderItems body). fitsInt (in_quantity item)"
  shows "everyOrderHasItem (snd (createOrder u body d))"
  using assms
  by (auto simp: createOrder_def checkCustomer_def priceAndStore_everyOrderHasItem
        everyOrderHasItem_occupyTable split: option.splits)

lemma orders_ids_writeTotals:
  "map o_id (orders (writeTotals i s t d)) = map o_id (orders d)"
  "orderItems (writeTotals i s t d) = orderItems d"
  by (simp_all add: writeTotals_def updateOrder_def Let_def comp_def)


lemma storeAndTotal_everyOrderHasItem:
  assumes inv: "everyOrderHasItem d"
  shows "everyOrderHasItem (snd (storeAndTotal i vs s t d))"
proof -
  obtain raised d1 where c: "createOrderItems i vs d = (raised, d1)"
    by (cases "createOrderItems i vs d")
  from createOrderItems_appends [OF c] obtain new where
    n: "orders d1 = orders d" "orderItems d1 = orderItems d @ new"
    by auto
  have "everyOrderHasItem d1"
    using inv by (rule everyOrderHasItem_grow [where new = new]) (simp_all add: n)
  moreover have "everyOrderHasItem (writeTotals i s t d1)"
    using inv
    by (rule everyOrderHasItem_grow [where new = new]) (simp_all add: n orders_ids_writeTotals)
  ultimately show ?thesis
    using c by (simp add: storeAndTotal_def split: option.splits)
qed

lemma addOrderItems_everyOrderHasItem:
  assumes inv: "everyOrderHasItem d"
  shows "everyOrderHasItem (snd (addOrderItems u i items d))"
  using inv
  by (simp add: addOrderItems_def storeAndTotal_everyOrderHasItem
        split: option.splits sum.splits prod.splits)

lemma filter_distinct_one:
  assumes "distinct (map f ys)"
  shows "length ys \<le> Suc (length (filter (\<lambda>y. f y \<noteq> a) ys))"
  using assms
proof (induction ys)
  case Nil
  then show ?case by simp
next
  case (Cons y ys)
  show ?case
  proof (cases "f y = a")
    case True
    from Cons.prems have "f y \<notin> f ` set ys"
      by simp
    with True have "\<forall>x \<in> set ys. f x \<noteq> a"
      by blast
    then have "filter (\<lambda>y. f y \<noteq> a) ys = ys"
      by (simp add: filter_id_conv)
    with True show ?thesis by simp
  next
    case False
    with Cons show ?thesis by simp
  qed
qed

lemma removeOrderItem_everyOrderHasItem:
  assumes inv: "everyOrderHasItem d" and ids: "distinct (map oi_id (orderItems d))"
  shows "everyOrderHasItem (snd (removeOrderItem u orderId itemId d))"
proof (cases "fst (removeOrderItem u orderId itemId d) = Success 200 \<or>
              snd (removeOrderItem u orderId itemId d) \<noteq> d")
  case False
  with inv show ?thesis by simp
next
  case True
  then obtain ord orderItem where
    o: "findOrder d orderId = Some ord"
    and many: "\<not> length (orderItemsOf d orderId) \<le> 1"
    and it: "find (\<lambda>it. oi_id it = itemId \<and> oi_orderId it = orderId) (orderItems d)
               = Some orderItem"
    by (auto simp: removeOrderItem_def split: option.splits if_splits)
  define d1 where "d1 = d\<lparr>orderItems := filter (\<lambda>it. oi_id it \<noteq> itemId) (orderItems d)\<rparr>"
  from it have found: "orderItem \<in> set (orderItems d)" "oi_id orderItem = itemId"
    "oi_orderId orderItem = orderId"
    by (auto simp: find_Some_iff)
  have keep: "orderItemsOf d1 j \<noteq> []" if "orderItemsOf d j \<noteq> []" for j
  proof (cases "j = orderId")
    case True
    from ids have "distinct (map oi_id (orderItemsOf d orderId))"
      by (simp add: orderItemsOf_def distinct_map_filter)
    from filter_distinct_one [OF this, of itemId] many
    have "filter (\<lambda>y. oi_id y \<noteq> itemId) (orderItemsOf d orderId) \<noteq> []"
      by auto
    moreover have "orderItemsOf d1 orderId
        = filter (\<lambda>y. oi_id y \<noteq> itemId) (orderItemsOf d orderId)"
      by (auto simp: orderItemsOf_def d1_def intro: filter_cong)
    ultimately show ?thesis using True by simp
  next
    case False
    from that obtain x where x: "x \<in> set (orderItems d)" "oi_orderId x = j"
      by (auto simp: orderItemsOf_def filter_empty_conv)
    with False found ids have "oi_id x \<noteq> itemId"
      by (metis distinct_map inj_onD)
    with x show ?thesis
      by (auto simp: orderItemsOf_def d1_def filter_empty_conv)
  qed
  with inv have d1: "everyOrderHasItem d1"
    by (simp add: everyOrderHasItem_def d1_def)
  have "everyOrderHasItem (writeTotals orderId s t d1)" for s t
    using d1
    by (rule everyOrderHasItem_grow [where new = "[]"]) (simp_all add: orders_ids_writeTotals)
  with inv d1 o many it show ?thesis
    by (auto simp: removeOrderItem_def Let_def d1_def split: option.splits)
qed

text \<open>
  Claim C8, evaluated on the code: every order always has at least one order item. A request for
  2147483648 of item 1 passes the validation of \<^verbatim>\<open>createOrder\<close> (a non-empty list, a positive
  integer quantity); \<^verbatim>\<open>prisma.order.create\<close> stores order 100, then \<^verbatim>\<open>prisma.orderItem.create\<close> raises
  on the quantity, which is outside the 32-bit \<^verbatim>\<open>Int\<close> column. Nothing undoes the order row: the request
  is answered 500 and order 100 stays in the store without any item.
\<close>

theorem createOrder_overflow_leaves_order_without_item:
  "orderItemsInvalid (b_orderItems exOverflowBody) = None \<and>
   orders exMenuStore = [] \<and>
   fst (createOrder exServer exOverflowBody exMenuStore) = Fail 500 ''Server Error'' \<and>
   map o_id (orders (snd (createOrder exServer exOverflowBody exMenuStore))) = [100] \<and>
   orderItems (snd (createOrder exServer exOverflowBody exMenuStore)) = [] \<and>
   orderItemsOf (snd (createOrder exServer exOverflowBody exMenuStore)) 100 = []"
  by (simp add: order_example_defs exOverflowBody_def order_defs Let_def)

text \<open>The same run in terms of \<^const>\<open>everyOrderHasItem\<close>: it holds before and not after.\<close>

lemma createOrder_overflow_everyOrderHasItem:
  "everyOrderHasItem exMenuStore \<and>
   \<not> everyOrderHasItem (snd (createOrder exServer exOverflowBody exMenuStore))"
  by (simp add: order_example_defs exOverflowBody_def order_defs everyOrderHasItem_def Let_def)

text \<open>
  The totals of the order rows. Every handler that writes an order row keeps
  \<^const>\<open>totalsWithoutTip\<close>: \<^verbatim>\<open>createOrder\<close> stores the total as subtotal plus tax and no tip, the
  item handlers rewrite the three columns together, the voucher handlers add the tip they
  read, and the status handlers leave the columns alone.
\<close>

lemma totalsWithoutTip_frame:
  "totalsWithoutTip d \<Longrightarrow> orders d' = orders d \<Longrightarrow> totalsWithoutTip d'"
  by (simp add: totalsWithoutTip_def)

lemma totalsWithoutTip_updateOrder:
  assumes "totalsWithoutTip d"
    and "\<And>x. o_tip x = None \<Longrightarrow> o_total x = o_subtotal x + o_tax x \<Longrightarrow>
           o_tip (f x) = None \<and> o_total (f x) = o_subtotal (f x) + o_tax (f x)"
  shows "totalsWithoutTip (updateOrder i f d)"
  using assms by (auto simp: totalsWithoutTip_def updateOrder_def)

lemma totalsWithoutTip_writeTotals:
  "totalsWithoutTip d \<Longrightarrow> totalsWithoutTip (writeTotals i s t d)"
  unfolding writeTotals_def Let_def by (rule totalsWithoutTip_updateOrder) simp_all

lemma orders_releaseTable: "orders (releaseTable tid i d) = orders d"
  by (simp add: releaseTable_def)

lemma orders_cascadeItems: "orders (cascadeItems i a b d) = orders d"
  by (simp add: cascadeItems_def)

lemma orders_occupyTable: "orders (occupyTable tid d) = orders d"
  by (simp add: occupyTable_def)

lemma orders_createOrderItems:
  "createOrderItems oid vs d = (raised, d') \<Longrightarrow> orders d' = orders d"
proof (induction vs arbitrary: d)
  case Nil
  then show ?case by simp
next
  case (Cons v vs)
  obtain ok1 mods where sm: "storeModifiers (vi_modifiers v) [] = (ok1, mods)"
    by (cases "storeModifiers (vi_modifiers v) []")
  define d1 where "d1 = d\<lparr>nextId := Suc (nextId d), orderItems := orderItems d @
      [\<lparr>oi_id = nextId d, oi_orderId = oid,
        oi_menuItemId = vi_menuItemId v, oi_quantity = vi_quantity v, oi_price = vi_price v,
        oi_status = ITEM_PENDING, oi_modifiers = mods\<rparr>]\<rparr>"
  have o1: "orders d1 = orders d"
    by (simp add: d1_def)
  show ?case
  proof (cases "fitsInt (vi_quantity v) \<and> ok1")
    case True
    with Cons.prems sm have "createOrderItems oid vs d1 = (raised, d')"
      by (simp add: Let_def d1_def)
    from Cons.IH [OF this] o1 show ?thesis
      by simp
  next
    case False
    with Cons.prems sm have "d' = d \<or> d' = d1"
      by (auto simp: Let_def d1_def split: if_splits)
    with o1 show ?thesis
      by auto
  qed
qed

lemma totalsWithoutTip_priceAndStore:
  assumes inv: "totalsWithoutTip d"
  shows "totalsWithoutTip (snd (priceAndStore u body rest d))"
proof (cases "b_orderItems body = []")
  case True
  with inv show ?thesis by (simp add: priceAndStore_def)
next
  case False
  show ?thesis
  proof (cases "validateItems d (rs_id rest) (b_orderItems body) 0 []")
    case (Inl e)
    with inv False show ?thesis by (simp add: priceAndStore_def)
  next
    case (Inr r)
    obtain subtotal validatedItems where r: "r = (subtotal, validatedItems)"
      by (cases r)
    define ord where "ord = \<lparr>o_id = nextId d, o_status = PENDING,
      o_type = (case b_type body of None \<Rightarrow> DINE_IN | Some t \<Rightarrow> t),
      o_completedAt = None, o_subtotal = subtotal,
      o_tax = subtotal * (rs_taxRate rest / 100),
      o_tip = None, o_total = subtotal + subtotal * (rs_taxRate rest / 100),
      o_tableId = b_tableId body, o_userId = u_id u, o_customerId = b_customerId body,
      o_restaurantId = rs_id rest\<rparr>"
    define d1 where "d1 = d\<lparr>nextId := Suc (nextId d), orders := orders d @ [ord]\<rparr>"
    obtain raised d2 where c: "createOrderItems (nextId d) validatedItems d1 = (raised, d2)"
      by (cases "createOrderItems (nextId d) validatedItems d1")
    have "totalsWithoutTip d1"
      using inv by (simp add: totalsWithoutTip_def d1_def ord_def)
    then have "totalsWithoutTip d2"
      by (rule totalsWithoutTip_frame) (rule orders_createOrderItems [OF c])
    moreover from Inr r False c have "snd (priceAndStore u body rest d) = d2"
      by (simp add: priceAndStore_def Let_def d1_def ord_def split: option.splits)
    ultimately show ?thesis by simp
  qed
qed

lemma totalsWithoutTip_createOrder:
  assumes "totalsWithoutTip d"
  shows "totalsWithoutTip (snd (createOrder u body d))"
proof -
  have "totalsWithoutTip (occupyTable tid d)" for tid
    using assms by (rule totalsWithoutTip_frame) (rule orders_occupyTable)
  with assms show ?thesis
    by (auto simp: createOrder_def checkCustomer_def totalsWithoutTip_priceAndStore
          split: option.splits)
qed

lemma totalsWithoutTip_status:
  assumes "totalsWithoutTip d"
  shows "totalsWithoutTip (updateOrder i (\<lambda>x. x\<lparr>o_status := st\<rparr>) d)"
    and "totalsWithoutTip (updateOrder i (\<lambda>x. x\<lparr>o_status := st, o_completedAt := c\<rparr>) d)"
  using assms by (auto intro: totalsWithoutTip_updateOrder)

lemma totalsWithoutTip_releaseTable:
  "totalsWithoutTip d \<Longrightarrow> totalsWithoutTip (releaseTable tid i d)"
  by (erule totalsWithoutTip_frame) (rule orders_releaseTable)

lemma totalsWithoutTip_updateOrderStatus:
  assumes "totalsWithoutTip d"
  shows "totalsWithoutTip (snd (updateOrderStatus clock u i status d))"
  using assms
  by (auto simp: updateOrderStatus_def Let_def totalsWithoutTip_status
        totalsWithoutTip_releaseTable split: option.splits)

lemma totalsWithoutTip_cancelOrder:
  assumes "totalsWithoutTip d"
  shows "totalsWithoutTip (snd (cancelOrder clock u i d))"
  using assms
  by (auto simp: cancelOrder_def Let_def totalsWithoutTip_status
        totalsWithoutTip_releaseTable split: option.splits)

lemma totalsWithoutTip_storeAndTotal:
  assumes inv: "totalsWithoutTip d"
  shows "totalsWithoutTip (snd (storeAndTotal i vs s t d))"
proof -
  obtain raised d1 where c: "createOrderItems i vs d = (raised, d1)"
    by (cases "createOrderItems i vs d")
  have "totalsWithoutTip d1"
    using inv by (rule totalsWithoutTip_frame) (rule orders_createOrderItems [OF c])
  then show ?thesis
    using c by (simp add: storeAndTotal_def totalsWithoutTip_writeTotals split: option.splits)
qed

lemma totalsWithoutTip_addOrderItems:
  assumes "totalsWithoutTip d"
  shows "totalsWithoutTip (snd (addOrderItems u i items d))"
  using assms
  by (simp add: addOrderItems_def totalsWithoutTip_storeAndTotal
        split: option.splits sum.splits prod.splits)

lemma totalsWithoutTip_updateItemRow:
  "totalsWithoutTip d \<Longrightarrow> totalsWithoutTip (updateItemRow i q s d)"
  by (erule totalsWithoutTip_frame) (rule orders_updateItemRow)

lemma totalsWithoutTip_recalculate:
  "totalsWithoutTip d \<Longrightarrow> totalsWithoutTip (snd (recalculate i ord d))"
  by (simp add: recalculate_def Let_def totalsWithoutTip_writeTotals split: option.splits)

lemma totalsWithoutTip_updateOrderItem:
  assumes "totalsWithoutTip d"
  shows "totalsWithoutTip (snd (updateOrderItem u orderId itemId quantity st d))"
  using assms
  by (simp add: updateOrderItem_def Let_def totalsWithoutTip_updateItemRow
        totalsWithoutTip_recalculate split: option.splits)

lemma totalsWithoutTip_removeOrderItem:
  assumes inv: "totalsWithoutTip d"
  shows "totalsWithoutTip (snd (removeOrderItem u orderId itemId d))"
proof -
  have "totalsWithoutTip (d\<lparr>orderItems := xs\<rparr>)" for xs
    using inv by (rule totalsWithoutTip_frame) simp
  with inv show ?thesis
    by (simp add: removeOrderItem_def Let_def totalsWithoutTip_writeTotals
          split: option.splits)
qed

lemma totalsWithoutTip_promoteOrder:
  "totalsWithoutTip d \<Longrightarrow> totalsWithoutTip (promoteOrder ord d)"
  by (simp add: promoteOrder_def Let_def totalsWithoutTip_status)

lemma totalsWithoutTip_updateOrderItemStatus:
  assumes "totalsWithoutTip d"
  shows "totalsWithoutTip (snd (updateOrderItemStatus u i status d))"
  using assms
  by (simp add: updateOrderItemStatus_def totalsWithoutTip_promoteOrder
        totalsWithoutTip_updateItemRow split: option.splits)

lemma totalsWithoutTip_cascadeItems:
  "totalsWithoutTip d \<Longrightarrow> totalsWithoutTip (cascadeItems i a b d)"
  by (erule totalsWithoutTip_frame) (rule orders_cascadeItems)

lemma totalsWithoutTip_updateKitchenOrderStatus:
  assumes "totalsWithoutTip d"
  shows "totalsWithoutTip (snd (updateKitchenOrderStatus u i status d))"
  using assms
  by (simp add: updateKitchenOrderStatus_def totalsWithoutTip_cascadeItems
        totalsWithoutTip_status split: option.splits)

lemma tipOr0_found:
  assumes "totalsWithoutTip d" "findOrder d i = Some ord"
  shows "tipOr0 ord = 0"
proof -
  from assms(2) have "ord \<in> set (orders d)"
    by (auto simp: findOrder_def find_Some_iff)
  with assms(1) show ?thesis
    by (simp add: totalsWithoutTip_def tipOr0_def)
qed

lemma totalsWithoutTip_applyDiscount:
  assumes "totalsWithoutTip d" "tipOr0 ord = 0"
  shows "totalsWithoutTip (applyDiscount clock u orderId ord v rest d)"
proof -
  define d1 where "d1 = updateOrder orderId
      (\<lambda>x. x\<lparr>o_subtotal := max 0 (o_subtotal ord - voucherDiscount v (o_subtotal ord)),
              o_tax := (max 0 (o_subtotal ord - voucherDiscount v (o_subtotal ord))
                         * rs_taxRate rest) / 100,
              o_total := max 0 (o_subtotal ord - voucherDiscount v (o_subtotal ord))
                + (max 0 (o_subtotal ord - voucherDiscount v (o_subtotal ord))
                     * rs_taxRate rest) / 100 + tipOr0 ord\<rparr>) d"
  have "totalsWithoutTip d1"
    unfolding d1_def using assms(1) by (rule totalsWithoutTip_updateOrder) (simp add: assms(2))
  then show ?thesis
    by (rule totalsWithoutTip_frame) (simp add: applyDiscount_def Let_def d1_def)
qed

lemma totalsWithoutTip_applyVoucher:
  assumes "totalsWithoutTip d"
  shows "totalsWithoutTip (snd (applyVoucher clock u code orderId d))"
  using assms
  by (auto simp: applyVoucher_def checkVoucher_def Let_def totalsWithoutTip_applyDiscount
        tipOr0_found split: option.splits)

lemma totalsWithoutTip_restoreTotals:
  assumes "totalsWithoutTip d" "tipOr0 ord = 0"
  shows "totalsWithoutTip (restoreTotals orderId ord redemption v rest d)"
proof -
  define d1 where "d1 = updateOrder orderId
      (\<lambda>x. x\<lparr>o_subtotal := originalSubtotal v (o_subtotal ord),
              o_tax := (originalSubtotal v (o_subtotal ord) * rs_taxRate rest) / 100,
              o_total := originalSubtotal v (o_subtotal ord)
                + (originalSubtotal v (o_subtotal ord) * rs_taxRate rest) / 100
                + tipOr0 ord\<rparr>) d"
  have "totalsWithoutTip d1"
    unfolding d1_def using assms(1) by (rule totalsWithoutTip_updateOrder) (simp add: assms(2))
  then show ?thesis
    by (rule totalsWithoutTip_frame) (simp add: restoreTotals_def Let_def d1_def)
qed

lemma totalsWithoutTip_removeVoucher:
  assumes "totalsWithoutTip d"
  shows "totalsWithoutTip (snd (removeVoucher u orderId d))"
  using assms
  by (auto simp: removeVoucher_def totalsWithoutTip_restoreTotals tipOr0_found
        split: option.splits list.splits)

lemma totalsWithoutTip_settle:
  assumes "totalsWithoutTip d"
  shows "totalsWithoutTip (settle clock orderId ord d)"
  using assms
  by (simp add: settle_def Let_def totalsWithoutTip_status totalsWithoutTip_releaseTable
        split: option.splits)

lemma totalsWithoutTip_createPayment:
  assumes inv: "totalsWithoutTip d"
  shows "totalsWithoutTip (snd (createPayment clock u orderId amount d))"
proof -
  have "totalsWithoutTip (d\<lparr>nextId := n, payments := ps\<rparr>)" for n ps
    using inv by (rule totalsWithoutTip_frame) simp
  with inv show ?thesis
    by (simp add: createPayment_def Let_def totalsWithoutTip_settle split: option.splits)
qed

lemma reachable_totalsWithoutTip: "reachable d \<Longrightarrow> totalsWithoutTip d"
proof (induction rule: reachable.induct)
  case (start d)
  then show ?case by (simp add: totalsWithoutTip_def)
next
  case (other d d')
  then show ?case by (simp add: totalsWithoutTip_frame)
qed (simp_all add: totalsWithoutTip_createOrder totalsWithoutTip_updateOrderStatus
       totalsWithoutTip_cancelOrder totalsWithoutTip_addOrderItems
       totalsWithoutTip_updateOrderItem totalsWithoutTip_removeOrderItem
       totalsWithoutTip_updateOrderItemStatus totalsWithoutTip_updateKitchenOrderStatus
       totalsWithoutTip_applyVoucher totalsWithoutTip_removeVoucher
       totalsWithoutTip_createPayment)

lemma totalsWithoutTip_agree:
  "totalsWithoutTip d \<Longrightarrow> list_all totalsAgree (orders d)"
  by (simp add: totalsWithoutTip_def totalsAgree_def tipOr0_def list_all_iff)


lemma exOrderStore_rows:
  "exOrderStore = exMenuStore\<lparr>nextId := 103,
     tables := [\<lparr>t_id = 3, t_restaurantId = 1, t_status = OCCUPIED\<rparr>],
     orders := [\<lparr>o_id = 100, o_status = PENDING, o_type = DINE_IN, o_completedAt = None,
       o_subtotal = 30, o_tax = 24 / 10, o_tip = None, o_total = 324 / 10,
       o_tableId = Some 3, o_userId = 7, o_customerId = None, o_restaurantId = 1\<rparr>],
     orderItems := [\<lparr>oi_id = 101, oi_orderId = 100, oi_menuItemId = 1, oi_quantity = 2,
         oi_price = 10, oi_status = ITEM_PENDING, oi_modifiers = []\<rparr>,
       \<lparr>oi_id = 102, oi_orderId = 100, oi_menuItemId = 2, oi_quantity = 2,
         oi_price = 5, oi_status = ITEM_PENDING, oi_modifiers = []\<rparr>]\<rparr>"
  by (simp add: exOrderStore_def order_example_defs order_defs Let_def)

text \<open>
  Claim C2: after every mutating operation on an order (create, add items, update item,
  remove item, apply voucher, remove voucher), \<open>total = subtotal + tax + (tip or 0)\<close> holds on
  every order row. It holds in every store the handlers produce, and so in the store each of
  the six operations leaves behind, whatever the request and whatever the answer.
\<close>

theorem totals_agree_after_every_operation:
  assumes "reachable d"
  shows "list_all totalsAgree (orders d)
    \<and> list_all totalsAgree (orders (snd (createOrder u body d)))
    \<and> list_all totalsAgree (orders (snd (addOrderItems u i items d)))
    \<and> list_all totalsAgree (orders (snd (updateOrderItem u i itemId quantity st d)))
    \<and> list_all totalsAgree (orders (snd (removeOrderItem u i itemId d)))
    \<and> list_all totalsAgree (orders (snd (applyVoucher clock u code i d)))
    \<and> list_all totalsAgree (orders (snd (removeVoucher u i d)))"
proof -
  from assms have "totalsWithoutTip d"
    by (rule reachable_totalsWithoutTip)
  then show ?thesis
    by (intro conjI totalsWithoutTip_agree totalsWithoutTip_createOrder
          totalsWithoutTip_addOrderItems totalsWithoutTip_updateOrderItem
          totalsWithoutTip_removeOrderItem totalsWithoutTip_applyVoucher
          totalsWithoutTip_removeVoucher)
qed

text \<open>
  The theorem at the scenario order, in a store with a voucher of 10 percent: adding one
  item of 10.00 gives 40.00 / 3.20 / 43.20, applying the voucher gives 27.00 / 2.16 / 29.16.
\<close>

theorem totals_agree_after_every_operation_witness:
  "reachable exPromoStore
   \<and> fst (addOrderItems exServer 100 [exItem 1 1] exPromoStore) = Success 200
   \<and> map o_subtotal (orders (snd (addOrderItems exServer 100 [exItem 1 1] exPromoStore))) = [40]
   \<and> map o_tax (orders (snd (addOrderItems exServer 100 [exItem 1 1] exPromoStore))) = [32 / 10]
   \<and> map o_total (orders (snd (addOrderItems exServer 100 [exItem 1 1] exPromoStore))) = [432 / 10]
   \<and> fst (applyVoucher 0 exServer ''SAVE'' 100 exPromoStore) = Success 200
   \<and> map o_subtotal (orders (snd (applyVoucher 0 exServer ''SAVE'' 100 exPromoStore))) = [27]
   \<and> map o_tax (orders (snd (applyVoucher 0 exServer ''SAVE'' 100 exPromoStore))) = [216 / 100]
   \<and> map o_total (orders (snd (applyVoucher 0 exServer ''SAVE'' 100 exPromoStore))) = [2916 / 100]
   \<and> list_all totalsAgree (orders (snd (addOrderItems exServer 100 [exItem 1 1] exPromoStore)))
   \<and> list_all totalsAgree (orders (snd (applyVoucher 0 exServer ''SAVE'' 100 exPromoStore)))"
proof -
  have "reachable exOrderStore"
    unfolding exOrderStore_def
    by (rule reachable.createOrder, rule reachable.start) (simp add: exMenuStore_def)
  moreover have "orders exPromoStore = orders exOrderStore"
    by (simp add: exPromoStore_def createVoucher_def Let_def split: option.splits)
  ultimately have r: "reachable exPromoStore"
    by (rule reachable.other)
  have promo: "exPromoStore = exOrderStore\<lparr>nextId := 104,
     vouchers := [\<lparr>v_id = 103, v_code = ''SAVE'', v_type = PERCENTAGE, v_value = 10,
       v_minPurchase = 0, v_isActive = True, v_startDate = 0,
       v_expiryDate = 1746769793000, v_usageLimit = None, v_usageCount = 0,
       v_restaurantId = 1\<rparr>]\<rparr>"
    by (simp add: exPromoStore_def exOrderStore_rows createVoucher_def exVoucherBody_def
          exManager_def exMenuStore_def resolveRestaurantId_def findRestaurant_def
          voucherNow_def Let_def)
  have a: "fst (addOrderItems exServer 100 [exItem 1 1] exPromoStore) = Success 200"
    "map o_subtotal (orders (snd (addOrderItems exServer 100 [exItem 1 1] exPromoStore))) = [40]"
    "map o_tax (orders (snd (addOrderItems exServer 100 [exItem 1 1] exPromoStore))) = [32 / 10]"
    "map o_total (orders (snd (addOrderItems exServer 100 [exItem 1 1] exPromoStore))) = [432 / 10]"
    by (simp_all add: promo exOrderStore_rows order_example_defs order_defs addOrderItems_def
          storeAndTotal_def writeTotals_def Let_def)
  have v: "fst (applyVoucher 0 exServer ''SAVE'' 100 exPromoStore) = Success 200"
    "map o_subtotal (orders (snd (applyVoucher 0 exServer ''SAVE'' 100 exPromoStore))) = [27]"
    "map o_tax (orders (snd (applyVoucher 0 exServer ''SAVE'' 100 exPromoStore))) = [216 / 100]"
    "map o_total (orders (snd (applyVoucher 0 exServer ''SAVE'' 100 exPromoStore))) = [2916 / 100]"
    by (simp_all add: promo exOrderStore_rows order_example_defs voucher_defs Let_def)
  from totals_agree_after_every_operation [OF r, where u = exServer and i = 100
      and items = "[exItem 1 1]" and clock = 0 and code = "''SAVE''"]
  have "list_all totalsAgree (orders (snd (addOrderItems exServer 100 [exItem 1 1] exPromoStore)))"
    "list_all totalsAgree (orders (snd (applyVoucher 0 exServer ''SAVE'' 100 exPromoStore)))"
    by simp_all
  with r a v show ?thesis
    by simp
qed

end
